theory Spec2Isabelle
  imports Complex_Main "HOL-Library.Word"
begin

section \<open>JavaScript strings and values\<close>

text \<open>
  A JavaScript string is a sequence of 16-bit code units; the regular expressions of
  \<^verbatim>\<open>content.js\<close> carry no \<^verbatim>\<open>u\<close> flag, so they match code units.
\<close>

type_synonym jschar = "16 word"
type_synonym jstring = "jschar list"

definition js :: "string \<Rightarrow> jstring" where
  \<comment> \<open>an ASCII literal of the source as a JavaScript string\<close>
  "js s = map (\<lambda>c. of_nat (of_char c)) s"

datatype jsval = Undefined | Null | Str jstring

datatype js_error = TypeError

fun truthy :: "jsval \<Rightarrow> bool" where
  "truthy Undefined = False"
| "truthy Null = False"
| "truthy (Str s) = (s \<noteq> [])"

definition js_or :: "jsval \<Rightarrow> jsval \<Rightarrow> jsval" where
  \<comment> \<open>\<^verbatim>\<open>a || b\<close>\<close>
  "js_or a b = (if truthy a then a else b)"

fun str_method :: "jsval \<Rightarrow> js_error + jstring" where
  \<comment> \<open>the receiver of a string method call: \<^verbatim>\<open>undefined.trim()\<close> throws a TypeError\<close>
  "str_method (Str s) = Inr s"
| "str_method Undefined = Inl TypeError"
| "str_method Null = Inl TypeError"

definition array_get :: "'a list \<Rightarrow> int \<Rightarrow> 'a option" where
  \<comment> \<open>\<^verbatim>\<open>xs[i]\<close>: out of range reads give \<^verbatim>\<open>undefined\<close>\<close>
  "array_get xs i = (if 0 \<le> i \<and> i < int (length xs) then Some (xs ! nat i) else None)"

section \<open>Text cleaning (content.js, lines 26-30, 47-51, 71-76)\<close>

definition isControl :: "jschar \<Rightarrow> bool" where
  \<comment> \<open>the class of line 27: U+0000 to U+001F and U+007F to U+009F\<close>
  "isControl c = (c \<le> 0x1F \<or> (0x7F \<le> c \<and> c \<le> 0x9F))"

definition isZeroWidth :: "jschar \<Rightarrow> bool" where
  \<comment> \<open>the class of line 28: U+200B to U+200D and U+FEFF\<close>
  "isZeroWidth c = ((0x200B \<le> c \<and> c \<le> 0x200D) \<or> c = 0xFEFF)"

definition isNbsp :: "jschar \<Rightarrow> bool" where
  \<comment> \<open>line 29: U+00A0\<close>
  "isNbsp c = (c = 0xA0)"

definition isWhiteSpace :: "jschar \<Rightarrow> bool" where
  \<comment> \<open>\<^verbatim>\<open>\s\<close>, and what \<^verbatim>\<open>trim()\<close> removes: ECMAScript WhiteSpace and LineTerminator\<close>
  "isWhiteSpace c =
     ((0x09 \<le> c \<and> c \<le> 0x0D) \<or> c = 0x20 \<or> c = 0xA0 \<or> c = 0x1680 \<or>
      (0x2000 \<le> c \<and> c \<le> 0x200A) \<or> c = 0x2028 \<or> c = 0x2029 \<or> c = 0x202F \<or>
      c = 0x205F \<or> c = 0x3000 \<or> c = 0xFEFF)"

definition space :: jschar where
  "space = 0x20"

definition strip_control :: "jstring \<Rightarrow> jstring" where
  \<comment> \<open>\<^verbatim>\<open>replace\<close> with flag g of every control character by the empty string\<close>
  "strip_control s = filter (\<lambda>c. \<not> isControl c) s"

definition strip_zero_width :: "jstring \<Rightarrow> jstring" where
  \<comment> \<open>\<^verbatim>\<open>replace\<close> with flag g of every zero-width character by the empty string\<close>
  "strip_zero_width s = filter (\<lambda>c. \<not> isZeroWidth c) s"

definition replace_nbsp :: "jstring \<Rightarrow> jstring" where
  \<comment> \<open>\<^verbatim>\<open>replace\<close> with flag g of every non-breaking space by a space\<close>
  "replace_nbsp s = map (\<lambda>c. if isNbsp c then space else c) s"

function collapse_ws :: "jstring \<Rightarrow> jstring" where
  \<comment> \<open>\<^verbatim>\<open>.replace(/\s+/g, ' ')\<close>: each maximal run of white space becomes one space\<close>
  "collapse_ws [] = []"
| "collapse_ws (c # cs) =
     (if isWhiteSpace c then space # collapse_ws (dropWhile isWhiteSpace cs)
      else c # collapse_ws cs)"
  by pat_completeness auto
termination
  by (relation "measure length") (auto simp: le_imp_less_Suc length_dropWhile_le)

definition trim :: "jstring \<Rightarrow> jstring" where
  \<comment> \<open>\<^verbatim>\<open>.trim()\<close>\<close>
  "trim s = rev (dropWhile isWhiteSpace (rev (dropWhile isWhiteSpace s)))"

definition cleanSubject :: "jstring \<Rightarrow> jstring" where
  \<comment> \<open>getSubject, lines 26-30\<close>
  "cleanSubject subjectText = trim (replace_nbsp (strip_zero_width (strip_control subjectText)))"

definition cleanName :: "jstring \<Rightarrow> jstring" where
  \<comment> \<open>getSender, lines 47-51\<close>
  "cleanName name = trim (replace_nbsp (strip_zero_width (strip_control name)))"

definition cleanText :: "jstring \<Rightarrow> jstring" where
  \<comment> \<open>getBody, lines 71-76\<close>
  "cleanText bodyText =
     trim (collapse_ws (replace_nbsp (strip_zero_width (strip_control bodyText))))"

definition normalize_spec :: "jstring \<Rightarrow> jstring" where
  \<comment> \<open>the normalisation in the words of the specification, section 4.1: strip control
      characters, strip zero-width characters, non-breaking spaces to spaces, collapse
      runs of white space, trim the ends\<close>
  "normalize_spec s = trim (collapse_ws (replace_nbsp (strip_zero_width (strip_control s))))"

fun ws_collapsed :: "jstring \<Rightarrow> bool" where
  \<comment> \<open>every white space character is a plain space, and no two of them are adjacent\<close>
  "ws_collapsed [] = True"
| "ws_collapsed [c] = (if isWhiteSpace c then c = space else True)"
| "ws_collapsed (c # c' # cs) =
     (if isWhiteSpace c then c = space \<and> \<not> isWhiteSpace c' \<and> ws_collapsed (c' # cs)
      else ws_collapsed (c' # cs))"

definition trimmed :: "jstring \<Rightarrow> bool" where
  \<comment> \<open>no white space at either end\<close>
  "trimmed s = (s = [] \<or> \<not> (isWhiteSpace (hd s) \<or> isWhiteSpace (last s)))"

section \<open>The host page as the extractor reads it\<close>

text \<open>
  The document is the list of its elements in document order, which is the order
  \<^verbatim>\<open>querySelector\<close> and \<^verbatim>\<open>querySelectorAll\<close> search in. The four selectors of the
  source have no combinator, so whether an element matches depends on the element alone.
  \<^verbatim>\<open>innerText\<close> is a string on an HTMLElement and \<^verbatim>\<open>undefined\<close> on any other element.
\<close>

record element =
  tagName :: string
  classList :: "string list"
  attributes :: "(string \<times> jstring) list"
  textContent :: jstring
  innerText :: jsval

type_synonym document = "element list"

datatype selector =
    Sel_h2_hP           \<comment> \<open>\<^verbatim>\<open>h2.hP\<close>\<close>
  | Sel_heading_perm    \<comment> \<open>\<^verbatim>\<open>[role="heading"][data-thread-perm-id]\<close>\<close>
  | Sel_span_gD         \<comment> \<open>\<^verbatim>\<open>span.gD\<close>\<close>
  | Sel_div_a3s         \<comment> \<open>\<^verbatim>\<open>div.a3s\<close>\<close>

fun matches :: "selector \<Rightarrow> element \<Rightarrow> bool" where
  "matches Sel_h2_hP el = (tagName el = ''h2'' \<and> ''hP'' \<in> set (classList el))"
| "matches Sel_heading_perm el =
     (map_of (attributes el) ''role'' = Some (js ''heading'') \<and>
      map_of (attributes el) ''data-thread-perm-id'' \<noteq> None)"
| "matches Sel_span_gD el = (tagName el = ''span'' \<and> ''gD'' \<in> set (classList el))"
| "matches Sel_div_a3s el = (tagName el = ''div'' \<and> ''a3s'' \<in> set (classList el))"

definition querySelector :: "document \<Rightarrow> selector \<Rightarrow> element option" where
  "querySelector d sel = find (matches sel) d"

definition querySelectorAll :: "document \<Rightarrow> selector \<Rightarrow> element list" where
  "querySelectorAll d sel = filter (matches sel) d"

definition getAttribute :: "element \<Rightarrow> string \<Rightarrow> jsval" where
  "getAttribute el n = (case map_of (attributes el) n of None \<Rightarrow> Null | Some v \<Rightarrow> Str v)"

fun opt_getAttribute :: "element option \<Rightarrow> string \<Rightarrow> jsval" where
  \<comment> \<open>\<^verbatim>\<open>el?.getAttribute(n)\<close>\<close>
  "opt_getAttribute None n = Undefined"
| "opt_getAttribute (Some el) n = getAttribute el n"

section \<open>The extractor (content.js, lines 1-88)\<close>

fun text_js :: "element option \<Rightarrow> jstring" where
  \<comment> \<open>\<^verbatim>\<open>text\<close>, line 2: \<^verbatim>\<open>el && el.textContent ? el.textContent.trim() : ""\<close>\<close>
  "text_js None = []"
| "text_js (Some el) = (if textContent el \<noteq> [] then trim (textContent el) else [])"

definition subject_element :: "document \<Rightarrow> element option" where
  \<comment> \<open>line 21, and again line 1006: the \<^verbatim>\<open>||\<close> is between elements, not between texts\<close>
  "subject_element d =
     (case querySelector d Sel_h2_hP of
        Some el \<Rightarrow> Some el
      | None \<Rightarrow> querySelector d Sel_heading_perm)"

definition getSubject :: "document \<Rightarrow> jstring" where
  \<comment> \<open>the \<^verbatim>\<open>catch\<close> of lines 33-36 is not modelled: \<^verbatim>\<open>subjectText\<close> is a string, and
      \<^verbatim>\<open>replace\<close> and \<^verbatim>\<open>trim\<close> on a string do not throw\<close>
  "getSubject d =
     (let el = subject_element d;
          subjectText = text_js el
      in cleanSubject subjectText)"

record sender =
  name :: jsval
  email :: jsval

definition getSender :: "document \<Rightarrow> sender" where
  "getSender d =
     (let el = querySelector d Sel_span_gD;
          name = js_or (opt_getAttribute el ''name'') (Str (text_js el));
          email = js_or (opt_getAttribute el ''email'')
                    (js_or (opt_getAttribute el ''data-hovercard-id'') (Str []))
      in case str_method name of
           Inr n \<Rightarrow> \<lparr> name = js_or (Str (cleanName n)) (Str []), email = js_or email (Str []) \<rparr>
         | Inl error \<Rightarrow> \<lparr> name = js_or name (Str []), email = js_or email (Str []) \<rparr>)"

definition getBody :: "document \<Rightarrow> jstring" where
  "getBody d =
     (let bodies = querySelectorAll d Sel_div_a3s;
          lastEl = array_get bodies (int (length bodies) - 1)
      in case lastEl of
           None \<Rightarrow> []
         | Some el \<Rightarrow>
             (case str_method (innerText el) of
                Inr t \<Rightarrow> cleanText (trim t)
              | Inl error \<Rightarrow> []))"

definition isMessageOpen :: "document \<Rightarrow> bool" where
  "isMessageOpen d =
     (querySelector d Sel_h2_hP \<noteq> None \<or> querySelector d Sel_div_a3s \<noteq> None)"

record emailData =
  subject :: jstring
  sender :: sender
  body :: jstring

definition extractEmailData :: "document \<Rightarrow> emailData" where
  \<comment> \<open>lines 637-639 and 950-952: the three getters, in this order\<close>
  "extractEmailData d = \<lparr> subject = getSubject d, sender = getSender d, body = getBody d \<rparr>"
fun str_of :: "jsval \<Rightarrow> jstring" where
  \<comment> \<open>the string of a value known to be one\<close>
  "str_of (Str s) = s"
| "str_of Undefined = []"
| "str_of Null = []"

definition first_nonempty_text :: "document \<Rightarrow> selector list \<Rightarrow> jstring" where
  \<comment> \<open>candidate selection in the words of the specification, section 4.1: the first
      candidate, in list order, that resolves to a non-empty trimmed text wins\<close>
  "first_nonempty_text d sels =
     (case filter (\<lambda>t. t \<noteq> []) (map (\<lambda>sel. text_js (querySelector d sel)) sels) of
        [] \<Rightarrow> []
      | t # ts \<Rightarrow> t)"

subsection \<open>Example elements\<close>

definition el_empty_h2 :: element where
  "el_empty_h2 = \<lparr> tagName = ''h2'', classList = [''hP''], attributes = [],
     textContent = [], innerText = Str [] \<rparr>"

definition el_heading_hello :: element where
  "el_heading_hello = \<lparr> tagName = ''div'', classList = [],
     attributes = [(''role'', js ''heading''), (''data-thread-perm-id'', js ''t1'')],
     textContent = js ''Hello'', innerText = Str (js ''Hello'') \<rparr>"

definition el_h2_invoice :: element where
  "el_h2_invoice = \<lparr> tagName = ''h2'', classList = [''hP''], attributes = [],
     textContent = js ''Invoice Due'', innerText = Str (js ''Invoice Due'') \<rparr>"

definition el_span_acme :: element where
  "el_span_acme = \<lparr> tagName = ''span'', classList = [''gD''],
     attributes = [(''name'', js ''Acme Billing''), (''email'', js ''billing@acme.com'')],
     textContent = js ''Acme'', innerText = Str (js ''Acme'') \<rparr>"

definition el_body_old :: element where
  "el_body_old = \<lparr> tagName = ''div'', classList = [''a3s'', ''aiL''], attributes = [],
     textContent = js ''Old reply'', innerText = Str (js ''Old reply'') \<rparr>"

definition el_body_pay :: element where
  "el_body_pay = \<lparr> tagName = ''div'', classList = [''a3s''], attributes = [],
     textContent = js ''Please pay'', innerText = Str (js ''Please  pay '') \<rparr>"

definition el_paragraph :: element where
  "el_paragraph = \<lparr> tagName = ''p'', classList = [], attributes = [],
     textContent = js ''Inbox'', innerText = Str (js ''Inbox'') \<rparr>"

section \<open>The widget and the window state (content.js, lines 179-245, 337-435, 597-612, 899-927)\<close>

text \<open>
  The state the handlers read and write: the injected icon element (its class list, the
  glyph drawn in \<^verbatim>\<open>.icon-text\<close>, its background and the progress gradient), the
  download button, the globals \<^verbatim>\<open>window.speechData\<close>, \<^verbatim>\<open>window.currentAudio\<close>,
  \<^verbatim>\<open>window.isPlaying\<close>, \<^verbatim>\<open>window.isPaused\<close>, and the callbacks handed to
  \<^verbatim>\<open>setTimeout\<close> that have not run yet. \<^verbatim>\<open>getElementById\<close> may find no element:
  the icon and the button are optional. Console output and the \<^verbatim>\<open>data-tooltip\<close>
  attribute, which is only ever removed, are left out.
\<close>

datatype css_class = Active | Loading | Progress

datatype glyph = Microphone | PlayGlyph | PauseGlyph | Speaker

datatype background = BgDefault | BgError

datatype display = DisplayDefault | DisplayFlex | DisplayNone

datatype callback =
    AutoReadIfOpen        \<comment> \<open>lines 156-161 and 1039-1043\<close>
  | ClearBackground       \<comment> \<open>lines 606-610\<close>
  | CheckForEmailChange   \<comment> \<open>line 1068\<close>

record icon_element =
  classes :: "css_class set"
  glyph :: glyph
  background :: background
  gradient :: "real option"

record speech =
  audioFile :: jstring

record audio =
  src :: jstring
  paused :: bool
  currentTime :: real

record widget =
  icon :: "icon_element option"
  download :: "display option"
  speechData :: "speech option"
  currentAudio :: "audio option"
  isPlaying :: bool
  isPaused :: bool
  timers :: "(nat \<times> callback) list"

definition map_icon :: "(icon_element \<Rightarrow> icon_element) \<Rightarrow> widget \<Rightarrow> widget" where
  \<comment> \<open>\<^verbatim>\<open>const icon = document.getElementById('sumurfy-icon'); if (icon) { ... }\<close>\<close>
  "map_icon f w = (case icon w of None \<Rightarrow> w | Some ic \<Rightarrow> w\<lparr> icon := Some (f ic) \<rparr>)"

definition add_classes :: "css_class set \<Rightarrow> icon_element \<Rightarrow> icon_element" where
  "add_classes cs ic = ic\<lparr> classes := classes ic \<union> cs \<rparr>"

definition remove_classes :: "css_class set \<Rightarrow> icon_element \<Rightarrow> icon_element" where
  "remove_classes cs ic = ic\<lparr> classes := classes ic - cs \<rparr>"

definition has_audio :: "widget \<Rightarrow> bool" where
  \<comment> \<open>\<^verbatim>\<open>window.speechData && window.speechData.audioFile\<close>\<close>
  "has_audio w = (case speechData w of None \<Rightarrow> False | Some sp \<Rightarrow> audioFile sp \<noteq> [])"

definition showDownloadButton :: "widget \<Rightarrow> widget" where
  "showDownloadButton w =
     (case download w of None \<Rightarrow> w | Some b \<Rightarrow> w\<lparr> download := Some DisplayFlex \<rparr>)"

definition hideDownloadButton :: "widget \<Rightarrow> widget" where
  "hideDownloadButton w =
     (case download w of None \<Rightarrow> w | Some b \<Rightarrow> w\<lparr> download := Some DisplayNone \<rparr>)"

definition updateIconToPlay :: "widget \<Rightarrow> widget" where
  "updateIconToPlay w =
     (case icon w of
        None \<Rightarrow> w
      | Some ic \<Rightarrow> showDownloadButton (w\<lparr> icon := Some (ic\<lparr> glyph := PlayGlyph \<rparr>) \<rparr>))"

definition updateIconToPause :: "widget \<Rightarrow> widget" where
  "updateIconToPause w =
     (case icon w of
        None \<Rightarrow> w
      | Some ic \<Rightarrow> showDownloadButton (w\<lparr> icon := Some (ic\<lparr> glyph := PauseGlyph \<rparr>) \<rparr>))"

definition updateIconToSpeaker :: "widget \<Rightarrow> widget" where
  "updateIconToSpeaker w =
     (case icon w of
        None \<Rightarrow> w
      | Some ic \<Rightarrow> hideDownloadButton (w\<lparr> icon := Some (ic\<lparr> glyph := Speaker \<rparr>) \<rparr>))"

definition updateCircularProgress :: "real \<Rightarrow> widget \<Rightarrow> widget" where
  "updateCircularProgress progress w =
     (case icon w of
        None \<Rightarrow> w
      | Some ic \<Rightarrow>
          if progress > 0
          then w\<lparr> icon := Some (ic\<lparr> classes := classes ic \<union> {Progress},
                                    gradient := Some (progress * 360) \<rparr>) \<rparr>
          else w\<lparr> icon := Some (ic\<lparr> classes := classes ic - {Progress},
                                    gradient := None \<rparr>) \<rparr>)"

definition showStatus :: "bool \<Rightarrow> widget \<Rightarrow> widget" where
  \<comment> \<open>lines 598-612; the message goes to the console only\<close>
  "showStatus isError w =
     (case icon w of
        None \<Rightarrow> w
      | Some ic \<Rightarrow>
          if isError
          then w\<lparr> icon := Some (ic\<lparr> background := BgError \<rparr>),
                  timers := timers w @ [(2000, ClearBackground)] \<rparr>
          else w)"

definition resetWidgetState :: "widget \<Rightarrow> widget" where
  \<comment> \<open>lines 900-927; \<^verbatim>\<open>window.speechData\<close> is not touched\<close>
  "resetWidgetState w =
     (let w1 = map_icon (remove_classes {Active, Loading, Progress}) w;
          w2 = (case currentAudio w1 of None \<Rightarrow> w1 | Some a \<Rightarrow> w1\<lparr> currentAudio := None \<rparr>);
          w3 = w2\<lparr> isPlaying := False, isPaused := False \<rparr>;
          w4 = updateCircularProgress 0 w3;
          w5 = updateIconToSpeaker w4
      in hideDownloadButton w5)"

definition handlePlayPause :: "widget \<Rightarrow> widget" where
  \<comment> \<open>lines 283-335. \<^verbatim>\<open>pause()\<close> and \<^verbatim>\<open>play()\<close> set the \<^verbatim>\<open>paused\<close> flag of the
      audio element; the listeners of lines 438-503 on a new element are not modelled.
      No branch starts a request to the backend\<close>
  "handlePlayPause w =
     (case speechData w of
        None \<Rightarrow> w
      | Some sp \<Rightarrow>
          if audioFile sp = [] then w
          else
            (case currentAudio w of
               Some a \<Rightarrow>
                 if isPlaying w
                 then updateIconToPlay
                        (w\<lparr> currentAudio := Some (a\<lparr> paused := True \<rparr>),
                            isPlaying := False, isPaused := True \<rparr>)
                 else if isPaused w
                 then updateIconToPause
                        (w\<lparr> currentAudio := Some (a\<lparr> paused := False \<rparr>),
                            isPlaying := True, isPaused := False \<rparr>)
                 else updateIconToPause
                        (w\<lparr> currentAudio := Some (a\<lparr> paused := False \<rparr>),
                            isPlaying := True, isPaused := False \<rparr>)
             | None \<Rightarrow>
                 updateIconToPause
                   (w\<lparr> currentAudio :=
                          Some \<lparr> src = audioFile sp, paused = False, currentTime = 0 \<rparr>,
                        isPlaying := True, isPaused := False \<rparr>)))"

section \<open>The pipeline from the page to the request (content.js, lines 248-280, 615-654)\<close>

datatype pipeline_outcome =
    NoEmailOpen                     \<comment> \<open>return of line 618\<close>
  | AudioAvailable                  \<comment> \<open>return of line 624\<close>
  | ExtractionEmpty                 \<comment> \<open>return of line 649\<close>
  | CallGenerateSummary emailData   \<comment> \<open>line 653\<close>

definition unreadable :: "emailData \<Rightarrow> bool" where
  \<comment> \<open>\<^verbatim>\<open>!subject && !sender.name && !body\<close>, line 643\<close>
  "unreadable m = (subject m = [] \<and> \<not> truthy (name (sender m)) \<and> body m = [])"

definition autoReadCurrentEmail :: "document \<Rightarrow> widget \<Rightarrow> widget \<times> pipeline_outcome" where
  "autoReadCurrentEmail d w =
     (if \<not> isMessageOpen d then (w, NoEmailOpen)
      else if has_audio w then (w, AudioAvailable)
      else
        let w1 = map_icon (add_classes {Active}) w;
            w2 = map_icon (add_classes {Loading}) w1;
            m = extractEmailData d
        in if unreadable m
           then (map_icon (remove_classes {Active, Loading}) w2, ExtractionEmpty)
           else (w2, CallGenerateSummary m))"

datatype click_outcome =
    NoIcon                        \<comment> \<open>return of line 251\<close>
  | PlayPause                     \<comment> \<open>line 263\<close>
  | Ignored                       \<comment> \<open>return of line 267\<close>
  | Pipeline pipeline_outcome     \<comment> \<open>line 278\<close>

definition handleIconClick :: "document \<Rightarrow> widget \<Rightarrow> widget \<times> click_outcome" where
  "handleIconClick d w =
     (case icon w of
        None \<Rightarrow> (w, NoIcon)
      | Some ic \<Rightarrow>
          if Active \<in> classes ic then (handlePlayPause w, PlayPause)
          else if Loading \<in> classes ic then (w, Ignored)
          else
            let w1 = map_icon (add_classes {Active}) w;
                w2 = map_icon (add_classes {Loading}) w1;
                w3 = w2\<lparr> speechData := None \<rparr>;
                (w4, out) = autoReadCurrentEmail d w3
            in (w4, Pipeline out))"

section \<open>The summary client (content.js, lines 657-846)\<close>

text \<open>
  Every \<^verbatim>\<open>new Error(...)\<close> of \<^verbatim>\<open>generateSummary\<close> is a constructor; \<open>Thrown\<close> is an
  exception raised by the platform, with its name and its message.
\<close>

datatype js_exn =
    Thrown string string
  | Error_ServerResponded nat      \<comment> \<open>line 688\<close>
  | Error_ServerNotAccessible      \<comment> \<open>line 706\<close>
  | Error_XhrFailed nat            \<comment> \<open>line 721\<close>
  | Error_CannotConnect js_exn     \<comment> \<open>line 726\<close>
  | Error_NotAvailable             \<comment> \<open>line 731\<close>
  | Error_Http nat                 \<comment> \<open>line 763\<close>
  | Error_AllRetriesFailed "js_exn option"  \<comment> \<open>line 782\<close>

record summarize_result =
  success :: bool
  speech_of :: "speech option"

record response =
  status :: nat
  json :: "summarize_result option"   \<comment> \<open>\<open>None\<close>: \<^verbatim>\<open>response.json()\<close> rejects\<close>

definition ok :: "response \<Rightarrow> bool" where
  \<comment> \<open>\<^verbatim>\<open>response.ok\<close>\<close>
  "ok r = (200 \<le> status r \<and> status r \<le> 299)"

datatype fetch_outcome = Rejected js_exn | Resolved response

datatype xhr_outcome = XhrThrows js_exn | XhrStatus nat

text \<open>
  What the network answers during one call of \<^verbatim>\<open>generateSummary\<close>: to the \<^verbatim>\<open>fetch\<close>
  of the health endpoint, to a synchronous \<^verbatim>\<open>XMLHttpRequest\<close> to it should one be
  sent, and to the attempts of the summarize call, numbered 1, 2, 3 as in the log line 741.
\<close>

record network =
  health_fetch :: fetch_outcome
  health_xhr :: xhr_outcome
  summarize_fetch :: "nat \<Rightarrow> fetch_outcome"

datatype http_event =
    Get_health              \<comment> \<open>line 675\<close>
  | Xhr_health              \<comment> \<open>line 715\<close>
  | Post_summarize jstring  \<comment> \<open>line 743, with the \<^verbatim>\<open>email_content\<close> sent\<close>
  | Wait nat                \<comment> \<open>line 774, in milliseconds\<close>

fun str_includes :: "string \<Rightarrow> string \<Rightarrow> bool" where
  \<comment> \<open>\<^verbatim>\<open>s.includes(sub)\<close>\<close>
  "str_includes [] sub = (sub = [])"
| "str_includes (c # cs) sub = (take (length sub) (c # cs) = sub \<or> str_includes cs sub)"

fun is_failed_to_fetch :: "js_exn \<Rightarrow> bool" where
  \<comment> \<open>line 694; an \<^verbatim>\<open>Error\<close> made by \<^verbatim>\<open>new Error\<close> has the name \<^verbatim>\<open>Error\<close>\<close>
  "is_failed_to_fetch (Thrown n m) = (n = ''TypeError'' \<and> str_includes m ''Failed to fetch'')"
| "is_failed_to_fetch e = False"

fun to_string :: "jsval \<Rightarrow> jstring" where
  \<comment> \<open>a value inside a template literal\<close>
  "to_string (Str s) = s"
| "to_string Undefined = js ''undefined''"
| "to_string Null = js ''null''"

definition emailContent :: "emailData \<Rightarrow> jstring" where
  \<comment> \<open>line 664\<close>
  "emailContent m =
     js ''Subject: '' @ subject m @ [0x0A] @ js ''From: '' @ to_string (name (sender m)) @
     (if truthy (email (sender m)) then js '' <'' @ to_string (email (sender m)) @ js ''>'' else []) @
     [0x0A, 0x0A] @ body m"

text \<open>
  Lines 712-715 create an \<^verbatim>\<open>XMLHttpRequest\<close>, set its \<^verbatim>\<open>timeout\<close> to 5000 and open
  it as a synchronous request. In a window, which is where a content script runs, the
  \<^verbatim>\<open>open\<close> method of the XMLHttpRequest Standard throws an InvalidAccessError when the
  request is synchronous and the timeout is not 0, so \<^verbatim>\<open>send\<close> of line 715 is not
  reached. The model keeps \<^verbatim>\<open>send\<close> and the answer of the network to it, for the
  case in which \<^verbatim>\<open>open\<close> returns.
\<close>

record xhr =
  timeout :: nat

definition xhr_open :: "xhr \<Rightarrow> bool \<Rightarrow> js_exn + xhr" where
  \<comment> \<open>\<^verbatim>\<open>xhr.open(method, url, async)\<close> in a window\<close>
  "xhr_open x async =
     (if \<not> async \<and> timeout x \<noteq> 0
      then Inl (Thrown ''InvalidAccessError''
                  ''Synchronous requests must not set a timeout.'')
      else Inr x)"

definition xhr_fallback :: "network \<Rightarrow> http_event list \<times> (js_exn + unit)" where
  \<comment> \<open>the \<^verbatim>\<open>try\<close> block of lines 710-722\<close>
  "xhr_fallback net =
     (let x = \<lparr> timeout = 0 \<rparr>;
          x = x\<lparr> timeout := 5000 \<rparr>
      in case xhr_open x False of
           Inl e \<Rightarrow> ([], Inl e)
         | Inr x \<Rightarrow>
             (case health_xhr net of
                XhrThrows e \<Rightarrow> ([Xhr_health], Inl e)
              | XhrStatus st \<Rightarrow>
                  ([Xhr_health], if st = 200 then Inr () else Inl (Error_XhrFailed st))))"

definition connectivity_test :: "network \<Rightarrow> widget \<Rightarrow> http_event list \<times> (js_exn + unit) \<times> widget" where
  \<comment> \<open>lines 671-732; \<open>Inr ()\<close> is \<^verbatim>\<open>serverAvailable = true\<close>, \<open>Inl e\<close> the exception
      that leaves the block\<close>
  "connectivity_test net w =
     (case (case health_fetch net of
              Rejected e \<Rightarrow> Inl e
            | Resolved testResponse \<Rightarrow>
                if ok testResponse then Inr ()
                else Inl (Error_ServerResponded (status testResponse))) of
        Inr u \<Rightarrow> ([Get_health], Inr (), showStatus False w)
      | Inl testError \<Rightarrow>
          if is_failed_to_fetch testError
          then
            let w1 = showStatus True w;
                w2 = map_icon (remove_classes {Loading}) w1;
                w3 = map_icon (remove_classes {Active}) w2;
                w4 = (case icon w3 of None \<Rightarrow> w3 | Some ic \<Rightarrow> updateIconToSpeaker w3)
            in ([Get_health], Inl Error_ServerNotAccessible, w4)
          else
            (case xhr_fallback net of
               (evs, Inr u) \<Rightarrow> ([Get_health] @ evs, Inr (), showStatus False w)
             | (evs, Inl xhrError) \<Rightarrow>
                 ([Get_health] @ evs, Inl (Error_CannotConnect testError), showStatus True w)))"

record loop_vars =
  response :: "response option"
  lastError :: "js_exn option"
  log :: "http_event list"

fun retry_loop ::
  "(nat \<Rightarrow> fetch_outcome) \<Rightarrow> jstring \<Rightarrow> nat \<Rightarrow> loop_vars \<Rightarrow> loop_vars \<times> js_exn option" where
  \<comment> \<open>the \<^verbatim>\<open>while (retries > 0)\<close> of lines 739-779, by recursion on \<^verbatim>\<open>retries\<close>;
      the second component is the exception of line 776, if thrown. \<^verbatim>\<open>retries\<close> starts
      at 3 and only decreases, so \<open>4 - retries\<close> and \<open>3 - retries\<close> are exact on \<open>nat\<close>.
      The status call of line 773 is not an error and changes nothing\<close>
  "retry_loop fetch content 0 v = (v, None)"
| "retry_loop fetch content (Suc n) v =
     (let v1 = v\<lparr> log := log v @ [Post_summarize content] \<rparr>;
          attempt =
            (case fetch (4 - Suc n) of
               Rejected e \<Rightarrow> Inl (v1, e)
             | Resolved r \<Rightarrow>
                 let v2 = v1\<lparr> response := Some r \<rparr>
                 in if ok r then Inr v2 else Inl (v2, Error_Http (status r)))
      in case attempt of
           Inr v2 \<Rightarrow> (v2, None)
         | Inl (v2, fetchError) \<Rightarrow>
             let v3 = v2\<lparr> lastError := Some fetchError \<rparr>;
                 retries = n
             in if retries > 0
                then retry_loop fetch content retries
                       (v3\<lparr> log := log v3 @ [Wait (2 ^ (3 - retries) * 1000)] \<rparr>)
                else (v3, Some fetchError))"

definition handle_result :: "summarize_result \<Rightarrow> widget \<Rightarrow> widget" where
  \<comment> \<open>lines 790-826\<close>
  "handle_result result w =
     (if success result
      then
        let w1 = map_icon (remove_classes {Loading}) w;
            w2 = showStatus False w1
        in (case speech_of result of
              None \<Rightarrow> w2
            | Some sp \<Rightarrow>
                if audioFile sp = [] then w2
                else
                  let w3 = w2\<lparr> speechData := Some sp \<rparr>;
                      w4 = showStatus False w3;
                      w5 = (case icon w4 of None \<Rightarrow> w4 | Some ic \<Rightarrow> updateIconToSpeaker w4)
                  in updateIconToPlay w5)
      else
        let w1 = (case icon w of
                    None \<Rightarrow> w
                  | Some ic \<Rightarrow>
                      updateCircularProgress 0
                        (updateIconToSpeaker
                          (map_icon (remove_classes {Active})
                            (map_icon (remove_classes {Loading}) w))))
        in showStatus True w1)"

definition catch_handler :: "widget \<Rightarrow> widget" where
  \<comment> \<open>the \<^verbatim>\<open>catch\<close> of lines 827-845\<close>
  "catch_handler w =
     (let w1 = showStatus True w
      in case icon w1 of
           None \<Rightarrow> w1
         | Some ic \<Rightarrow>
             updateCircularProgress 0
               (updateIconToSpeaker
                 (map_icon (remove_classes {Active})
                   (map_icon (remove_classes {Loading}) w1))))"

record episode =
  events :: "http_event list"        \<comment> \<open>the requests sent and the waits, in order\<close>
  result :: "summarize_result option"  \<comment> \<open>\<^verbatim>\<open>result\<close> of line 787, when it is reached\<close>
  caught :: "js_exn option"          \<comment> \<open>the error that reached the \<^verbatim>\<open>catch\<close> of line 827\<close>
  page :: widget

definition failed :: "http_event list \<Rightarrow> js_exn \<Rightarrow> widget \<Rightarrow> episode" where
  \<comment> \<open>an exception leaves the \<^verbatim>\<open>try\<close> block of lines 658-826\<close>
  "failed evs e w = \<lparr> events = evs, result = None, caught = Some e, page = catch_handler w \<rparr>"

definition generateSummary :: "network \<Rightarrow> emailData \<Rightarrow> widget \<Rightarrow> episode" where
  "generateSummary net m w =
     (let w0 = showStatus False (showStatus False w);
          content = emailContent m
      in case connectivity_test net w0 of
           (evs, Inl e, w1) \<Rightarrow> failed evs e w1
         | (evs, Inr u, w1) \<Rightarrow>
             (case retry_loop (summarize_fetch net) content 3
                     \<lparr> response = None, lastError = None, log = evs \<rparr> of
                (v, Some e) \<Rightarrow> failed (log v) e w1
              | (v, None) \<Rightarrow>
                  (case response v of
                     None \<Rightarrow> failed (log v) (Error_AllRetriesFailed (lastError v)) w1
                   | Some r \<Rightarrow>
                       if \<not> ok r
                       then failed (log v) (Error_AllRetriesFailed (lastError v)) w1
                       else
                         (case json r of
                            None \<Rightarrow> failed (log v) (Thrown ''SyntaxError'' ''Unexpected token'') w1
                          | Some res \<Rightarrow>
                              \<lparr> events = log v, result = Some res, caught = None,
                                page = handle_result res w1 \<rparr>))))"

section \<open>Message-change detection and the event loop (content.js, lines 142-168, 984-1081)\<close>

record host =
  document :: document
  search :: "(string \<times> jstring) list"   \<comment> \<open>the parameters of \<^verbatim>\<open>window.location.search\<close>\<close>

definition params_get :: "(string \<times> jstring) list \<Rightarrow> string \<Rightarrow> jsval" where
  \<comment> \<open>\<^verbatim>\<open>URLSearchParams.get\<close>: the first value of the parameter, or \<^verbatim>\<open>null\<close>\<close>
  "params_get ps k = (case map_of ps k of None \<Rightarrow> Null | Some v \<Rightarrow> Str v)"

definition getCurrentEmailId :: "host \<Rightarrow> jstring" where
  \<comment> \<open>lines 991-1016\<close>
  "getCurrentEmailId h =
     (if \<not> isMessageOpen (document h) then js ''no-email''
      else
        let messageId = js_or (params_get (search h) ''th'') (params_get (search h) ''message_id'')
        in if truthy messageId then str_of messageId
           else
             (case (subject_element (document h), querySelector (document h) Sel_span_gD) of
                (Some subjectEl, Some senderEl) \<Rightarrow>
                  text_js (Some subjectEl) @ js ''-'' @ text_js (Some senderEl)
              | _ \<Rightarrow> js ''no-email''))"

text \<open>
  The state of the content script: the widget and the window, the variable
  \<^verbatim>\<open>currentEmailId\<close> of the closure of \<^verbatim>\<open>setupEmailChangeDetection\<close>, and the calls
  of \<^verbatim>\<open>generateSummary\<close> that have started and not yet finished, each with the message
  it was given. \<^verbatim>\<open>generateSummary\<close> reads and writes the widget only after its last
  \<^verbatim>\<open>await\<close> (the status calls before it are not errors and change nothing), so a call
  takes effect on the state in which it completes.
\<close>

record system =
  ui :: widget
  currentEmailId :: jstring
  in_flight :: "emailData list"

definition add_timer :: "nat \<Rightarrow> callback \<Rightarrow> system \<Rightarrow> system" where
  \<comment> \<open>\<^verbatim>\<open>setTimeout(callback, delay)\<close>\<close>
  "add_timer delay cb s = s\<lparr> ui := (ui s)\<lparr> timers := timers (ui s) @ [(delay, cb)] \<rparr> \<rparr>"

definition checkForEmailChange :: "host \<Rightarrow> system \<Rightarrow> system" where
  \<comment> \<open>lines 1027-1046\<close>
  "checkForEmailChange h s =
     (let newEmailId = getCurrentEmailId h
      in if newEmailId \<noteq> currentEmailId s
         then
           let s1 = s\<lparr> currentEmailId := newEmailId \<rparr>;
               s2 = s1\<lparr> ui := resetWidgetState (ui s1) \<rparr>
           in if newEmailId \<noteq> js ''no-email'' then add_timer 1000 AutoReadIfOpen s2 else s2
         else s)"

definition start_pipeline :: "widget \<times> pipeline_outcome \<Rightarrow> system \<Rightarrow> system" where
  \<comment> \<open>a call of \<^verbatim>\<open>generateSummary\<close> (line 653) starts an episode\<close>
  "start_pipeline r s =
     (case r of
        (w, CallGenerateSummary m) \<Rightarrow> s\<lparr> ui := w, in_flight := in_flight s @ [m] \<rparr>
      | (w, out) \<Rightarrow> s\<lparr> ui := w \<rparr>)"

definition run_callback :: "host \<Rightarrow> callback \<Rightarrow> system \<Rightarrow> system" where
  "run_callback h cb s =
     (case cb of
        AutoReadIfOpen \<Rightarrow>
          if isMessageOpen (document h)
          then start_pipeline (autoReadCurrentEmail (document h) (ui s)) s
          else s
      | ClearBackground \<Rightarrow> s\<lparr> ui := map_icon (\<lambda>ic. ic\<lparr> background := BgDefault \<rparr>) (ui s) \<rparr>
      | CheckForEmailChange \<Rightarrow> checkForEmailChange h s)"

datatype event =
    Click                     \<comment> \<open>the listener of line 239\<close>
  | IntervalTick              \<comment> \<open>\<^verbatim>\<open>setInterval(checkForEmailChange, 1000)\<close>, line 1049\<close>
  | Mutation bool             \<comment> \<open>the observer of lines 1052-1072, with \<^verbatim>\<open>hasNewEmail\<close>\<close>
  | TimerFires nat            \<comment> \<open>the pending timeout at this index runs\<close>
  | Completes nat network     \<comment> \<open>the episode at this index finishes, the network having
                                  answered so\<close>

definition step :: "host \<Rightarrow> event \<Rightarrow> system \<Rightarrow> system" where
  "step h ev s =
     (case ev of
        Click \<Rightarrow>
          (case handleIconClick (document h) (ui s) of
             (w, Pipeline out) \<Rightarrow> start_pipeline (w, out) s
           | (w, out) \<Rightarrow> s\<lparr> ui := w \<rparr>)
      | IntervalTick \<Rightarrow> checkForEmailChange h s
      | Mutation hasNewEmail \<Rightarrow> if hasNewEmail then add_timer 500 CheckForEmailChange s else s
      | TimerFires i \<Rightarrow>
          if i < length (timers (ui s))
          then run_callback h (snd (timers (ui s) ! i))
                 (s\<lparr> ui := (ui s)\<lparr> timers := take i (timers (ui s)) @ drop (Suc i) (timers (ui s)) \<rparr> \<rparr>)
          else s
      | Completes i net \<Rightarrow>
          if i < length (in_flight s)
          then s\<lparr> ui := page (generateSummary net (in_flight s ! i) (ui s)),
                  in_flight := take i (in_flight s) @ drop (Suc i) (in_flight s) \<rparr>
          else s)"

definition created_widget :: widget where
  \<comment> \<open>\<^verbatim>\<open>createSumurfyWidget\<close>, lines 201-228, before its \<^verbatim>\<open>resetWidgetState\<close>\<close>
  "created_widget =
     \<lparr> icon = Some \<lparr> classes = {}, glyph = Microphone, background = BgDefault, gradient = None \<rparr>,
       download = Some DisplayDefault, speechData = None, currentAudio = None,
       isPlaying = False, isPaused = False, timers = [] \<rparr>"

definition initializeWidget :: "host \<Rightarrow> system" where
  \<comment> \<open>lines 142-168; the server status check of lines 165-167 is not modelled\<close>
  "initializeWidget h =
     (let s = \<lparr> ui = resetWidgetState created_widget,
                currentEmailId = getCurrentEmailId h,
                in_flight = [] \<rparr>
      in if isMessageOpen (document h) then add_timer 1000 AutoReadIfOpen s else s)"

subsection \<open>Example pages and networks\<close>

definition host_invoice :: host where
  "host_invoice = \<lparr> document = [el_h2_invoice, el_span_acme, el_body_pay], search = [] \<rparr>"

definition host_hello :: host where
  "host_hello = \<lparr> document = [el_heading_hello, el_span_acme, el_body_old], search = [] \<rparr>"

definition speech_wav :: speech where
  "speech_wav = \<lparr> audioFile = js ''http://x/a.wav'' \<rparr>"

definition response_ok :: response where
  "response_ok = \<lparr> status = 200, json = Some \<lparr> success = True, speech_of = Some speech_wav \<rparr> \<rparr>"

definition net_ok :: network where
  "net_ok = \<lparr> health_fetch = Resolved \<lparr> status = 200, json = None \<rparr>,
              health_xhr = XhrStatus 200,
              summarize_fetch = (\<lambda>k. Resolved response_ok) \<rparr>"

definition net_two_failures :: network where
  \<comment> \<open>the health endpoint answers; the first summarize attempt is rejected by the network,
      the second is answered 503, the third succeeds\<close>
  "net_two_failures =
     \<lparr> health_fetch = Resolved \<lparr> status = 200, json = None \<rparr>,
       health_xhr = XhrStatus 200,
       summarize_fetch =
         (\<lambda>k. if k = 1 then Rejected (Thrown ''TypeError'' ''Failed to fetch'')
              else if k = 2 then Resolved \<lparr> status = 503, json = None \<rparr>
              else Resolved response_ok) \<rparr>"

definition net_health_503 :: network where
  \<comment> \<open>the health endpoint answers 503 to \<^verbatim>\<open>fetch\<close>, and would answer 200 to a later request\<close>
  "net_health_503 =
     \<lparr> health_fetch = Resolved \<lparr> status = 503, json = None \<rparr>,
       health_xhr = XhrStatus 200,
       summarize_fetch = (\<lambda>k. Resolved response_ok) \<rparr>"

definition probe_fails :: "fetch_outcome \<Rightarrow> bool" where
  \<comment> \<open>the health probe fails: \<^verbatim>\<open>fetch\<close> rejects, or the status is not 2xx\<close>
  "probe_fails f = (case f of Rejected e \<Rightarrow> True | Resolved r \<Rightarrow> \<not> ok r)"

definition msg_invoice :: emailData where
  \<comment> \<open>what the extractor reads on the page \<open>host_invoice\<close>\<close>
  "msg_invoice =
     \<lparr> subject = js ''Invoice Due'',
       sender = \<lparr> name = Str (js ''Acme Billing''), email = Str (js ''billing@acme.com'') \<rparr>,
       body = js ''Please pay'' \<rparr>"

definition widget_with ::
  "css_class set \<Rightarrow> glyph \<Rightarrow> display \<Rightarrow> speech option \<Rightarrow> (nat \<times> callback) list \<Rightarrow> widget" where
  \<comment> \<open>a widget with its icon and its download button, no audio element\<close>
  "widget_with cs g d sp ts =
     \<lparr> icon = Some \<lparr> classes = cs, glyph = g, background = BgDefault, gradient = None \<rparr>,
       download = Some d, speechData = sp, currentAudio = None,
       isPlaying = False, isPaused = False, timers = ts \<rparr>"

text \<open>
  Two runs of the content script on the page \<open>host_invoice\<close>. In the first the user
  clicks the icon before the timeout of line 156 runs. In the second that timeout starts
  the request, the user then opens the message of \<open>host_hello\<close>, and the response
  arrives after the interval check has seen the change.
\<close>

definition trace_clicked :: system where
  "trace_clicked = step host_invoice Click (initializeWidget host_invoice)"

definition trace_timer :: system where
  "trace_timer = step host_invoice (TimerFires 0) trace_clicked"

definition trace_requesting :: system where
  "trace_requesting = step host_invoice (TimerFires 0) (initializeWidget host_invoice)"

definition trace_navigated :: system where
  "trace_navigated = step host_hello IntervalTick trace_requesting"

definition trace_stale_response :: system where
  "trace_stale_response = step host_hello (Completes 0 net_ok) trace_navigated"

fun attempt_error :: "fetch_outcome \<Rightarrow> js_exn option" where
  \<comment> \<open>the error with which an attempt of lines 740-765 fails, if it fails\<close>
  "attempt_error (Rejected e) = Some e"
| "attempt_error (Resolved r) = (if ok r then None else Some (Error_Http (status r)))"

section \<open>Properties of the text cleaning\<close>

lemma trim_prefix_suffix: "\<exists>pre post. s = pre @ trim s @ post"
proof -
  let ?t = "dropWhile isWhiteSpace s"
  have 1: "s = takeWhile isWhiteSpace s @ ?t" by simp
  have "?t = rev (dropWhile isWhiteSpace (rev ?t)) @ rev (takeWhile isWhiteSpace (rev ?t))"
    by (metis rev_append rev_rev_ident takeWhile_dropWhile_id)
  then have 2: "?t = trim s @ rev (takeWhile isWhiteSpace (rev ?t))"
    unfolding trim_def .
  from 1 2 show ?thesis by metis
qed

lemma set_trim: "set (trim s) \<subseteq> set s"
proof -
  obtain pre post where "s = pre @ trim s @ post" using trim_prefix_suffix by blast
  then have "set s = set pre \<union> set (trim s) \<union> set post" by (metis set_append Un_assoc)
  then show ?thesis by blast
qed

lemma hd_dropWhile_rev: "dropWhile P (rev xs) \<noteq> [] \<Longrightarrow> last (dropWhile P (rev xs)) = hd xs"
  by (metis last_appendR takeWhile_dropWhile_id last_rev)

lemma trimmed_trim: "trimmed (trim s)"
proof (cases "trim s = []")
  case True
  then show ?thesis by (simp add: trimmed_def)
next
  case False
  let ?t = "dropWhile isWhiteSpace s"
  let ?u = "dropWhile isWhiteSpace (rev ?t)"
  from False have u: "?u \<noteq> []" by (simp add: trim_def)
  then have t: "?t \<noteq> []" by (metis dropWhile.simps(1) rev.simps(1))
  have "\<not> isWhiteSpace (hd ?u)" using u by (rule hd_dropWhile)
  then have l: "\<not> isWhiteSpace (last (trim s))" using u by (simp add: trim_def last_rev)
  have "last ?u = hd ?t" using u by (rule hd_dropWhile_rev)
  moreover have "\<not> isWhiteSpace (hd ?t)" using t by (rule hd_dropWhile)
  ultimately have h: "\<not> isWhiteSpace (hd (trim s))" using u by (simp add: trim_def hd_rev)
  from l h show ?thesis by (simp add: trimmed_def)
qed

lemma ws_collapsed_Cons:
  "ws_collapsed (c # xs) =
     ((if isWhiteSpace c then c = space \<and> (xs = [] \<or> \<not> isWhiteSpace (hd xs)) else True) \<and>
      ws_collapsed xs)"
  by (cases xs) auto

lemma ws_collapsed_append: "ws_collapsed (xs @ ys) \<Longrightarrow> ws_collapsed xs \<and> ws_collapsed ys"
proof (induction xs)
  case Nil
  then show ?case by simp
next
  case (Cons c xs)
  then show ?case
    by (cases xs) (auto simp: ws_collapsed_Cons split: if_splits)
qed

lemma ws_collapsed_trim: "ws_collapsed s \<Longrightarrow> ws_collapsed (trim s)"
proof -
  assume a: "ws_collapsed s"
  obtain pre post where "s = pre @ trim s @ post" using trim_prefix_suffix by blast
  with a have "ws_collapsed (pre @ trim s @ post)" by simp
  then show ?thesis using ws_collapsed_append by blast
qed

lemma collapse_ws_Nil_iff: "collapse_ws s = [] \<longleftrightarrow> s = []"
  by (cases s) auto

lemma hd_collapse_ws: "s \<noteq> [] \<Longrightarrow> \<not> isWhiteSpace (hd s) \<Longrightarrow> hd (collapse_ws s) = hd s"
  by (cases s) auto

lemma not_ws_space_iff: "isWhiteSpace space"
  by (simp add: isWhiteSpace_def space_def)

lemma ws_collapsed_collapse_ws: "ws_collapsed (collapse_ws s)"
proof (induction s rule: collapse_ws.induct)
  case 1
  then show ?case by simp
next
  case (2 c cs)
  show ?case
  proof (cases "isWhiteSpace c")
    case True
    let ?r = "dropWhile isWhiteSpace cs"
    have ih: "ws_collapsed (collapse_ws ?r)" using 2 True by simp
    have "collapse_ws ?r = [] \<or> \<not> isWhiteSpace (hd (collapse_ws ?r))"
    proof (cases "?r = []")
      case True
      then show ?thesis by (metis collapse_ws.simps(1))
    next
      case False
      then have "\<not> isWhiteSpace (hd ?r)" by (rule hd_dropWhile)
      with False show ?thesis by (simp add: hd_collapse_ws)
    qed
    with ih True show ?thesis by (simp add: ws_collapsed_Cons not_ws_space_iff)
  next
    case False
    with 2 show ?thesis by (simp add: ws_collapsed_Cons)
  qed
qed

lemma set_collapse_ws: "set (collapse_ws s) \<subseteq> insert space (set s)"
proof (induction s rule: collapse_ws.induct)
  case 1
  then show ?case by simp
next
  case (2 c cs)
  have "set (dropWhile isWhiteSpace cs) \<subseteq> set cs" by (auto dest: set_dropWhileD)
  with 2 show ?case by (cases "isWhiteSpace c") auto
qed

lemma dropWhile_all_append: "\<forall>x\<in>set xs. P x \<Longrightarrow> dropWhile P (xs @ ys) = dropWhile P ys"
  by (induction xs) auto

lemma dropWhile_some_append:
  "\<not> (\<forall>x\<in>set xs. P x) \<Longrightarrow> dropWhile P (xs @ ys) = dropWhile P xs @ ys"
  by (induction xs) auto

lemma trim_decomposition:
  "\<exists>pre post. s = pre @ trim s @ post \<and>
     (\<forall>x\<in>set pre. isWhiteSpace x) \<and> (\<forall>x\<in>set post. isWhiteSpace x)"
proof -
  let ?t = "dropWhile isWhiteSpace s"
  have 1: "s = takeWhile isWhiteSpace s @ ?t" by simp
  have "?t = rev (dropWhile isWhiteSpace (rev ?t)) @ rev (takeWhile isWhiteSpace (rev ?t))"
    by (metis rev_append rev_rev_ident takeWhile_dropWhile_id)
  then have 2: "?t = trim s @ rev (takeWhile isWhiteSpace (rev ?t))"
    unfolding trim_def .
  have 3: "\<forall>x\<in>set (takeWhile isWhiteSpace s). isWhiteSpace x"
    by (auto dest: set_takeWhileD)
  have 4: "\<forall>x\<in>set (rev (takeWhile isWhiteSpace (rev ?t))). isWhiteSpace x"
    by (auto dest: set_takeWhileD)
  from 1 2 have "s = takeWhile isWhiteSpace s @ trim s @ rev (takeWhile isWhiteSpace (rev ?t))"
    by metis
  with 3 4 show ?thesis by blast
qed

lemma trim_unique:
  assumes "\<forall>x\<in>set pre. isWhiteSpace x" "\<forall>x\<in>set post. isWhiteSpace x" "trimmed t"
  shows "trim (pre @ t @ post) = t"
proof (cases "t = []")
  case True
  with assms have "dropWhile isWhiteSpace (pre @ t @ post) = []" by auto
  with True show ?thesis by (simp only: trim_def) simp
next
  case False
  with assms(3) have h: "\<not> isWhiteSpace (hd t)" and l: "\<not> isWhiteSpace (last t)"
    by (simp_all add: trimmed_def)
  from False h have d: "dropWhile isWhiteSpace (t @ post) = t @ post"
    by (cases t) simp_all
  from assms(1) have "dropWhile isWhiteSpace (pre @ t @ post) = dropWhile isWhiteSpace (t @ post)"
    by (rule dropWhile_all_append)
  with d have 1: "dropWhile isWhiteSpace (pre @ t @ post) = t @ post" by simp
  from False l have "dropWhile isWhiteSpace (rev t) = rev t"
    by (cases "rev t") (simp_all add: last_rev [symmetric] hd_rev)
  moreover from assms(2) have "\<forall>x\<in>set (rev post). isWhiteSpace x" by simp
  then have "dropWhile isWhiteSpace (rev post @ rev t) = dropWhile isWhiteSpace (rev t)"
    by (rule dropWhile_all_append)
  ultimately have 2: "dropWhile isWhiteSpace (rev post @ rev t) = rev t" by simp
  show ?thesis by (simp add: trim_def 1 2)
qed

lemma trim_ws_ends:
  assumes "\<forall>x\<in>set p. isWhiteSpace x" "\<forall>x\<in>set q. isWhiteSpace x"
  shows "trim (p @ s @ q) = trim s"
proof -
  obtain pre post where d: "s = pre @ trim s @ post"
    and a: "\<forall>x\<in>set pre. isWhiteSpace x" and b: "\<forall>x\<in>set post. isWhiteSpace x"
    using trim_decomposition by blast
  from d have "p @ s @ q = (p @ pre) @ trim s @ (post @ q)" by simp
  then have "trim (p @ s @ q) = trim ((p @ pre) @ trim s @ (post @ q))" by (rule arg_cong)
  also have "\<dots> = trim s"
    using assms a b by (intro trim_unique) (auto simp: trimmed_trim)
  finally show ?thesis .
qed

lemma trim_trimmed: "trimmed s \<Longrightarrow> trim s = s"
  using trim_unique [of "[]" "[]" s] by simp

lemma collapse_ws_lead:
  assumes "\<forall>x\<in>set w. isWhiteSpace x" "t = [] \<or> \<not> isWhiteSpace (hd t)"
  shows "collapse_ws (w @ t) = (if w = [] then [] else [space]) @ collapse_ws t"
proof (cases w)
  case Nil
  then show ?thesis by simp
next
  case (Cons c w')
  from assms(2) have "dropWhile isWhiteSpace t = t" by (cases t) auto
  moreover from assms(1) Cons have "\<forall>x\<in>set w'. isWhiteSpace x" "isWhiteSpace c" by simp_all
  ultimately show ?thesis using Cons by (simp add: dropWhile_all_append)
qed

lemma last_dropWhile: "dropWhile P xs \<noteq> [] \<Longrightarrow> last (dropWhile P xs) = last xs"
  by (metis last_appendR takeWhile_dropWhile_id)

lemma collapse_ws_trail:
  assumes "\<forall>x\<in>set w. isWhiteSpace x"
  shows "t = [] \<or> \<not> isWhiteSpace (last t) \<Longrightarrow>
         collapse_ws (t @ w) = collapse_ws t @ (if w = [] then [] else [space])"
proof (induction t rule: collapse_ws.induct)
  case 1
  from assms show ?case using collapse_ws_lead [of w "[]"] by simp
next
  case (2 c cs)
  show ?case
  proof (cases "isWhiteSpace c")
    case False
    from 2(3) have "cs = [] \<or> \<not> isWhiteSpace (last cs)" by (cases cs) auto
    with 2(2) False show ?thesis by simp
  next
    case True
    with 2(3) have ne: "cs \<noteq> []" and l: "\<not> isWhiteSpace (last cs)" by (auto split: if_splits)
    then have "last cs \<in> set cs" by simp
    with l have nall: "\<not> (\<forall>x\<in>set cs. isWhiteSpace x)" by blast
    then have d: "dropWhile isWhiteSpace (cs @ w) = dropWhile isWhiteSpace cs @ w"
      by (rule dropWhile_some_append)
    from nall have dn: "dropWhile isWhiteSpace cs \<noteq> []" by simp
    with l have "\<not> isWhiteSpace (last (dropWhile isWhiteSpace cs))" by (simp add: last_dropWhile)
    with 2(1) True have "collapse_ws (dropWhile isWhiteSpace cs @ w) =
        collapse_ws (dropWhile isWhiteSpace cs) @ (if w = [] then [] else [space])"
      by simp
    with True d show ?thesis by simp
  qed
qed

lemma last_collapse_ws:
  "t \<noteq> [] \<Longrightarrow> \<not> isWhiteSpace (last t) \<Longrightarrow> last (collapse_ws t) = last t"
proof (induction t rule: collapse_ws.induct)
  case 1
  then show ?case by simp
next
  case (2 c cs)
  show ?case
  proof (cases "isWhiteSpace c")
    case False
    with 2(2)[OF False] 2(3,4) show ?thesis
      by (cases cs) (auto simp: collapse_ws_Nil_iff)
  next
    case True
    with 2(4) have ne: "cs \<noteq> []" and l: "\<not> isWhiteSpace (last cs)" by (auto split: if_splits)
    then have "last cs \<in> set cs" by simp
    with l have dn: "dropWhile isWhiteSpace cs \<noteq> []" by auto
    with l have dl: "last (dropWhile isWhiteSpace cs) = last cs" by (simp add: last_dropWhile)
    with 2(1)[OF True dn] l have "last (collapse_ws (dropWhile isWhiteSpace cs)) = last cs" by simp
    moreover from dn have "collapse_ws (dropWhile isWhiteSpace cs) \<noteq> []"
      by (simp only: collapse_ws_Nil_iff) simp
    moreover from True have "collapse_ws (c # cs) = space # collapse_ws (dropWhile isWhiteSpace cs)"
      by simp
    ultimately show ?thesis using ne by simp
  qed
qed

lemma trimmed_collapse_ws: "trimmed t \<Longrightarrow> trimmed (collapse_ws t)"
  by (auto simp: trimmed_def collapse_ws_Nil_iff hd_collapse_ws last_collapse_ws)

lemma trim_collapse_ws:
  assumes "\<forall>x\<in>set w1. isWhiteSpace x" "\<forall>x\<in>set w2. isWhiteSpace x" "trimmed t"
  shows "trim (collapse_ws (w1 @ t @ w2)) = collapse_ws t"
proof (cases "t = []")
  case True
  from assms have "collapse_ws ((w1 @ w2) @ []) = (if w1 @ w2 = [] then [] else [space]) @ collapse_ws []"
    by (intro collapse_ws_lead) auto
  with True show ?thesis by (auto simp: trim_def not_ws_space_iff)
next
  case False
  with assms(3) have h: "\<not> isWhiteSpace (hd t)" and l: "\<not> isWhiteSpace (last t)"
    by (simp_all add: trimmed_def)
  from False h have "t @ w2 = [] \<or> \<not> isWhiteSpace (hd (t @ w2))" by simp
  with assms(1) have "collapse_ws (w1 @ t @ w2) =
      (if w1 = [] then [] else [space]) @ collapse_ws (t @ w2)"
    by (rule collapse_ws_lead)
  also have "collapse_ws (t @ w2) = collapse_ws t @ (if w2 = [] then [] else [space])"
    using assms(2) l by (intro collapse_ws_trail) simp_all
  finally have "collapse_ws (w1 @ t @ w2) =
      (if w1 = [] then [] else [space]) @ collapse_ws t @ (if w2 = [] then [] else [space])" .
  moreover have "trim ((if w1 = [] then [] else [space]) @ collapse_ws t @
      (if w2 = [] then [] else [space])) = collapse_ws t"
    using assms(3) by (intro trim_unique) (auto simp: not_ws_space_iff trimmed_collapse_ws)
  ultimately show ?thesis by simp
qed

lemma collapse_ws_run:
  assumes "r \<noteq> []" "\<forall>x\<in>set r. isWhiteSpace x"
  shows "collapse_ws (a @ r @ b) = collapse_ws (a @ [space] @ b)"
proof (induction a rule: collapse_ws.induct)
  case 1
  from assms obtain c r' where r: "r = c # r'" by (cases r) auto
  with assms(2) have "isWhiteSpace c" "\<forall>x\<in>set r'. isWhiteSpace x" by simp_all
  with r show ?case by (simp add: dropWhile_all_append not_ws_space_iff)
next
  case (2 c cs)
  show ?case
  proof (cases "isWhiteSpace c")
    case False
    with 2(2) show ?thesis by simp
  next
    case True
    show ?thesis
    proof (cases "\<forall>x\<in>set cs. isWhiteSpace x")
      case all: True
      with assms(2) have a1: "\<forall>x\<in>set (cs @ r). isWhiteSpace x"
        and a2: "\<forall>x\<in>set (cs @ [space]). isWhiteSpace x"
        by (auto simp: not_ws_space_iff)
      have "dropWhile isWhiteSpace ((cs @ r) @ b) = dropWhile isWhiteSpace b"
        using a1 by (rule dropWhile_all_append)
      moreover have "dropWhile isWhiteSpace ((cs @ [space]) @ b) = dropWhile isWhiteSpace b"
        using a2 by (rule dropWhile_all_append)
      ultimately show ?thesis using True by simp
    next
      case False
      then have "dropWhile isWhiteSpace (cs @ r @ b) = dropWhile isWhiteSpace cs @ r @ b"
        "dropWhile isWhiteSpace (cs @ [space] @ b) = dropWhile isWhiteSpace cs @ [space] @ b"
        by (rule dropWhile_some_append)+
      with 2(1) True show ?thesis by simp
    qed
  qed
qed

lemma collapse_ws_fixed: "ws_collapsed s \<Longrightarrow> collapse_ws s = s"
proof (induction s rule: collapse_ws.induct)
  case 1
  then show ?case by simp
next
  case (2 c cs)
  show ?case
  proof (cases "isWhiteSpace c")
    case False
    with 2 show ?thesis by (simp add: ws_collapsed_Cons)
  next
    case True
    with 2(3) have c: "c = space" and n: "cs = [] \<or> \<not> isWhiteSpace (hd cs)" and w: "ws_collapsed cs"
      by (simp_all add: ws_collapsed_Cons)
    from n have d: "dropWhile isWhiteSpace cs = cs" by (cases cs) auto
    with 2(1) True w c show ?thesis by simp
  qed
qed

lemmas clean_defs =
  cleanSubject_def cleanName_def cleanText_def normalize_spec_def strip_control_def
  strip_zero_width_def replace_nbsp_def trim_def js_def isWhiteSpace_def isControl_def
  isZeroWidth_def isNbsp_def space_def

lemma filter_trim_Nil: "filter P s = [] \<Longrightarrow> filter P (trim s) = []"
  using set_trim [of s] by (auto simp: filter_empty_conv)

lemma no_control_after_replace:
  "filter isControl (replace_nbsp (strip_zero_width (strip_control s))) = []"
  by (auto simp: filter_empty_conv replace_nbsp_def strip_zero_width_def strip_control_def
      isControl_def space_def isNbsp_def)

lemma no_zero_width_after_replace:
  "filter isZeroWidth (replace_nbsp (strip_zero_width (strip_control s))) = []"
  by (auto simp: filter_empty_conv replace_nbsp_def strip_zero_width_def strip_control_def
      isZeroWidth_def space_def isNbsp_def)

lemma no_nbsp_after_replace:
  "filter isNbsp (replace_nbsp (strip_zero_width (strip_control s))) = []"
  by (auto simp: filter_empty_conv replace_nbsp_def space_def isNbsp_def)

lemma filter_collapse_ws_Nil:
  "\<not> P space \<Longrightarrow> filter P s = [] \<Longrightarrow> filter P (collapse_ws s) = []"
  using set_collapse_ws [of s] by (auto simp: filter_empty_conv)

lemma space_classes: "\<not> isControl space" "\<not> isZeroWidth space" "\<not> isNbsp space"
  by (simp_all add: isControl_def isZeroWidth_def isNbsp_def space_def)

lemma core_append:
  "replace_nbsp (strip_zero_width (strip_control (a @ b))) =
   replace_nbsp (strip_zero_width (strip_control a)) @
   replace_nbsp (strip_zero_width (strip_control b))"
  by (simp add: replace_nbsp_def strip_zero_width_def strip_control_def)

lemma core_delete:
  "isControl c \<or> isZeroWidth c \<Longrightarrow>
   replace_nbsp (strip_zero_width (strip_control (a @ [c] @ b))) =
   replace_nbsp (strip_zero_width (strip_control (a @ b)))"
  by (auto simp: replace_nbsp_def strip_zero_width_def strip_control_def)

lemma core_space:
  "replace_nbsp (strip_zero_width (strip_control [space])) = [space]"
  by (simp add: replace_nbsp_def strip_zero_width_def strip_control_def space_classes)

lemma core_nbsp:
  "isNbsp c \<Longrightarrow>
   replace_nbsp (strip_zero_width (strip_control (a @ [c] @ b))) =
   replace_nbsp (strip_zero_width (strip_control (a @ [space] @ b)))"
proof -
  assume n: "isNbsp c"
  then have "\<not> isControl c" "\<not> isZeroWidth c"
    by (simp_all add: isNbsp_def isControl_def isZeroWidth_def)
  with n show ?thesis
    by (simp add: replace_nbsp_def strip_zero_width_def strip_control_def space_classes)
qed

lemma core_ws:
  "\<forall>x\<in>set p. isWhiteSpace x \<Longrightarrow>
   \<forall>x\<in>set (replace_nbsp (strip_zero_width (strip_control p))). isWhiteSpace x"
  by (auto simp: replace_nbsp_def strip_zero_width_def strip_control_def not_ws_space_iff)

lemma core_clean:
  "filter isControl s = [] \<Longrightarrow> filter isZeroWidth s = [] \<Longrightarrow> filter isNbsp s = [] \<Longrightarrow>
   replace_nbsp (strip_zero_width (strip_control s)) = s"
  by (simp add: replace_nbsp_def strip_zero_width_def strip_control_def filter_empty_conv
      filter_id_conv map_idI)

lemma core_run:
  "run \<noteq> [] \<Longrightarrow> \<forall>x\<in>set run. isWhiteSpace x \<and> \<not> isControl x \<and> \<not> isZeroWidth x \<Longrightarrow>
   replace_nbsp (strip_zero_width (strip_control run)) \<noteq> [] \<and>
   (\<forall>x\<in>set (replace_nbsp (strip_zero_width (strip_control run))). isWhiteSpace x)"
  by (auto simp: replace_nbsp_def strip_zero_width_def strip_control_def not_ws_space_iff
      filter_empty_conv)

lemma cleanSubject_delete:
  "isControl c \<or> isZeroWidth c \<Longrightarrow> cleanSubject (a @ [c] @ b) = cleanSubject (a @ b)"
  by (simp only: cleanSubject_def core_delete)

lemma cleanText_delete:
  "isControl c \<or> isZeroWidth c \<Longrightarrow> cleanText (a @ [c] @ b) = cleanText (a @ b)"
  by (simp only: cleanText_def core_delete)

lemma cleanSubject_nbsp: "isNbsp c \<Longrightarrow> cleanSubject (a @ [c] @ b) = cleanSubject (a @ [space] @ b)"
  by (simp only: cleanSubject_def core_nbsp)

lemma cleanText_nbsp: "isNbsp c \<Longrightarrow> cleanText (a @ [c] @ b) = cleanText (a @ [space] @ b)"
  by (simp only: cleanText_def core_nbsp)

lemma cleanSubject_ends:
  assumes "\<forall>x\<in>set pre. isWhiteSpace x" "\<forall>x\<in>set post. isWhiteSpace x"
  shows "cleanSubject (pre @ s @ post) = cleanSubject s"
  unfolding cleanSubject_def core_append
  using assms by (intro trim_ws_ends core_ws)

lemma cleanText_as_collapse_trim:
  "cleanText s = collapse_ws (trim (replace_nbsp (strip_zero_width (strip_control s))))"
proof -
  let ?c = "replace_nbsp (strip_zero_width (strip_control s))"
  obtain w1 w2 where d: "?c = w1 @ trim ?c @ w2"
    and a: "\<forall>x\<in>set w1. isWhiteSpace x" and b: "\<forall>x\<in>set w2. isWhiteSpace x"
    using trim_decomposition by blast
  from d have "trim (collapse_ws ?c) = trim (collapse_ws (w1 @ trim ?c @ w2))" by simp
  also have "\<dots> = collapse_ws (trim ?c)"
    using a b trimmed_trim by (rule trim_collapse_ws)
  finally show ?thesis by (simp add: cleanText_def)
qed

lemma cleanText_ends:
  assumes "\<forall>x\<in>set pre. isWhiteSpace x" "\<forall>x\<in>set post. isWhiteSpace x"
  shows "cleanText (pre @ s @ post) = cleanText s"
  unfolding cleanText_as_collapse_trim core_append
  using assms by (intro arg_cong [where f = collapse_ws] trim_ws_ends core_ws)

lemma cleanText_run:
  assumes "run \<noteq> []" "\<forall>x\<in>set run. isWhiteSpace x \<and> \<not> isControl x \<and> \<not> isZeroWidth x"
  shows "cleanText (a @ run @ b) = cleanText (a @ [space] @ b)"
proof -
  note r = core_run [OF assms]
  from r have "collapse_ws (replace_nbsp (strip_zero_width (strip_control a)) @
        replace_nbsp (strip_zero_width (strip_control run)) @
        replace_nbsp (strip_zero_width (strip_control b))) =
      collapse_ws (replace_nbsp (strip_zero_width (strip_control a)) @ [space] @
        replace_nbsp (strip_zero_width (strip_control b)))"
    by (intro collapse_ws_run) simp_all
  then show ?thesis
    by (simp only: cleanText_def core_append core_space)
qed

lemma cleanSubject_fixed:
  "filter isControl s = [] \<Longrightarrow> filter isZeroWidth s = [] \<Longrightarrow> filter isNbsp s = [] \<Longrightarrow>
   trimmed s \<Longrightarrow> cleanSubject s = s"
  by (simp add: cleanSubject_def core_clean trim_trimmed)

lemma cleanText_fixed:
  "filter isControl s = [] \<Longrightarrow> filter isZeroWidth s = [] \<Longrightarrow> filter isNbsp s = [] \<Longrightarrow>
   ws_collapsed s \<Longrightarrow> trimmed s \<Longrightarrow> cleanText s = s"
  by (simp add: cleanText_def core_clean collapse_ws_fixed trim_trimmed)

section \<open>The claims about the extractor\<close>

text \<open>
  C5, as the specification states it, fails: the cleaning of the subject and of the
  sender name has no step that collapses runs of white space; only the cleaning of the
  body has one (line 75). A subject with two spaces between two letters keeps both, while
  the body cleaning and the normalisation of the specification reduce them to one.
\<close>

theorem subject_keeps_whitespace_runs:
  "cleanSubject (js ''a  b'') = js ''a  b'' \<and>
   cleanName (js ''a  b'') = js ''a  b'' \<and>
   cleanText (js ''a  b'') = js ''a b'' \<and>
   normalize_spec (js ''a  b'') = js ''a b'' \<and>
   cleanSubject (js ''a  b'') \<noteq> normalize_spec (js ''a  b'')"
  by (simp add: clean_defs)

text \<open>
  C5, amended: the subject and the sender name are cleaned by one and the same
  function. It deletes every C0/C1 control character and every zero-width character
  (U+200B to U+200D, U+FEFF) and nothing else, it treats a non-breaking space as a space,
  it drops the white space at both ends, and it returns unchanged every string that has
  none of these, so runs of white space inside the text are kept. The body is cleaned by
  the same steps and, in addition, the collapse of white space: a run of white space
  characters that are neither control nor zero-width characters (those are deleted)
  counts as one space, and a string that is already clean, collapsed and trimmed is
  returned unchanged. The results have no control character, no zero-width
  character, no non-breaking space and no white space at either end; the body, in
  addition, has no white space but single spaces.
\<close>

theorem cleaning_per_field:
  "cleanName s = cleanSubject s \<and>
   filter isControl (cleanSubject s) = [] \<and>
   filter isZeroWidth (cleanSubject s) = [] \<and>
   filter isNbsp (cleanSubject s) = [] \<and>
   trimmed (cleanSubject s) \<and>
   cleanText s = normalize_spec s \<and>
   filter isControl (cleanText s) = [] \<and>
   filter isZeroWidth (cleanText s) = [] \<and>
   filter isNbsp (cleanText s) = [] \<and>
   ws_collapsed (cleanText s) \<and>
   trimmed (cleanText s) \<and>
   (isControl c \<or> isZeroWidth c \<longrightarrow>
      cleanSubject (a @ [c] @ b) = cleanSubject (a @ b) \<and>
      cleanText (a @ [c] @ b) = cleanText (a @ b)) \<and>
   (isNbsp c \<longrightarrow>
      cleanSubject (a @ [c] @ b) = cleanSubject (a @ [space] @ b) \<and>
      cleanText (a @ [c] @ b) = cleanText (a @ [space] @ b)) \<and>
   ((\<forall>x\<in>set pre. isWhiteSpace x) \<and> (\<forall>x\<in>set post. isWhiteSpace x) \<longrightarrow>
      cleanSubject (pre @ s @ post) = cleanSubject s \<and>
      cleanText (pre @ s @ post) = cleanText s) \<and>
   (filter isControl s = [] \<and> filter isZeroWidth s = [] \<and> filter isNbsp s = [] \<and>
    trimmed s \<longrightarrow> cleanSubject s = s) \<and>
   (run \<noteq> [] \<and> (\<forall>x\<in>set run. isWhiteSpace x \<and> \<not> isControl x \<and> \<not> isZeroWidth x) \<longrightarrow>
      cleanText (a @ run @ b) = cleanText (a @ [space] @ b)) \<and>
   (filter isControl s = [] \<and> filter isZeroWidth s = [] \<and> filter isNbsp s = [] \<and>
    ws_collapsed s \<and> trimmed s \<longrightarrow> cleanText s = s)"
proof -
  have same: "cleanName s = cleanSubject s"
    by (simp add: cleanName_def cleanSubject_def)
  have s1: "filter isControl (cleanSubject s) = []"
    unfolding cleanSubject_def by (rule filter_trim_Nil) (rule no_control_after_replace)
  have s2: "filter isZeroWidth (cleanSubject s) = []"
    unfolding cleanSubject_def by (rule filter_trim_Nil) (rule no_zero_width_after_replace)
  have s3: "filter isNbsp (cleanSubject s) = []"
    unfolding cleanSubject_def by (rule filter_trim_Nil) (rule no_nbsp_after_replace)
  have s4: "trimmed (cleanSubject s)"
    unfolding cleanSubject_def by (rule trimmed_trim)
  have spec: "cleanText s = normalize_spec s"
    by (simp add: cleanText_def normalize_spec_def)
  have b1: "filter isControl (cleanText s) = []"
    unfolding cleanText_def
    by (intro filter_trim_Nil filter_collapse_ws_Nil space_classes no_control_after_replace)
  have b2: "filter isZeroWidth (cleanText s) = []"
    unfolding cleanText_def
    by (intro filter_trim_Nil filter_collapse_ws_Nil space_classes no_zero_width_after_replace)
  have b3: "filter isNbsp (cleanText s) = []"
    unfolding cleanText_def
    by (intro filter_trim_Nil filter_collapse_ws_Nil space_classes no_nbsp_after_replace)
  have b4: "ws_collapsed (cleanText s)"
    unfolding cleanText_def by (rule ws_collapsed_trim) (rule ws_collapsed_collapse_ws)
  have b5: "trimmed (cleanText s)"
    unfolding cleanText_def by (rule trimmed_trim)
  have d: "isControl c \<or> isZeroWidth c \<longrightarrow>
      cleanSubject (a @ [c] @ b) = cleanSubject (a @ b) \<and>
      cleanText (a @ [c] @ b) = cleanText (a @ b)"
    using cleanSubject_delete [of c a b] cleanText_delete [of c a b] by blast
  have n: "isNbsp c \<longrightarrow>
      cleanSubject (a @ [c] @ b) = cleanSubject (a @ [space] @ b) \<and>
      cleanText (a @ [c] @ b) = cleanText (a @ [space] @ b)"
    using cleanSubject_nbsp [of c a b] cleanText_nbsp [of c a b] by blast
  have e: "(\<forall>x\<in>set pre. isWhiteSpace x) \<and> (\<forall>x\<in>set post. isWhiteSpace x) \<longrightarrow>
      cleanSubject (pre @ s @ post) = cleanSubject s \<and>
      cleanText (pre @ s @ post) = cleanText s"
    using cleanSubject_ends [of pre post s] cleanText_ends [of pre post s] by blast
  have f: "filter isControl s = [] \<and> filter isZeroWidth s = [] \<and> filter isNbsp s = [] \<and>
    trimmed s \<longrightarrow> cleanSubject s = s"
    using cleanSubject_fixed [of s] by blast
  have r: "run \<noteq> [] \<and> (\<forall>x\<in>set run. isWhiteSpace x \<and> \<not> isControl x \<and> \<not> isZeroWidth x) \<longrightarrow>
      cleanText (a @ run @ b) = cleanText (a @ [space] @ b)"
    using cleanText_run [of run a b] by blast
  have g: "filter isControl s = [] \<and> filter isZeroWidth s = [] \<and> filter isNbsp s = [] \<and>
    ws_collapsed s \<and> trimmed s \<longrightarrow> cleanText s = s"
    using cleanText_fixed [of s] by blast
  from same s1 s2 s3 s4 spec b1 b2 b3 b4 b5 d n e f r g show ?thesis by blast
qed

theorem cleaning_per_field_witness:
  "cleanText [0x20, 0x61, 0x09, 0xA0, 0x20, 0x62, 0x200B, 0x0A] = js ''a b'' \<and>
   ws_collapsed (js ''a b'') \<and> trimmed (js ''a b'') \<and>
   cleanSubject [0x20, 0x61, 0x09, 0xA0, 0x20, 0x62, 0x200B, 0x0A] = js ''a  b'' \<and>
   trimmed (js ''a  b'') \<and>
   isControl 0x09 \<and>
   cleanSubject (js ''x'' @ [0x09] @ js ''y'') = js ''xy'' \<and>
   cleanText (js ''x'' @ [0x09] @ js ''y'') = js ''xy'' \<and>
   isNbsp 0xA0 \<and>
   cleanSubject (js ''x'' @ [0xA0] @ js ''y'') = js ''x y'' \<and>
   cleanText (js ''x'' @ [0xA0] @ js ''y'') = js ''x y'' \<and>
   cleanSubject ([0x20, 0x09] @ js ''a  b'' @ [0x3000]) = js ''a  b'' \<and>
   cleanText ([0x20, 0x09] @ js ''a  b'' @ [0x3000]) = js ''a b'' \<and>
   cleanSubject (js ''a  b'') = js ''a  b'' \<and>
   cleanText (js ''x'' @ [0x20, 0x2003] @ js ''y'') = js ''x y'' \<and>
   cleanText (js ''a b'') = js ''a b''"
proof -
  let ?l = "[0x20, 0x61, 0x09, 0xA0, 0x20, 0x62, 0x200B, 0x0A] :: jstring"
  have b: "cleanText ?l = js ''a b''"
    by (simp add: clean_defs)
  have s: "cleanSubject ?l = js ''a  b''"
    by (simp add: clean_defs)
  note t = cleaning_per_field [of ?l]
  from t have "ws_collapsed (cleanText ?l)" and "trimmed (cleanText ?l)"
    and "trimmed (cleanSubject ?l)"
    by blast+
  then have w: "ws_collapsed (js ''a b'')" "trimmed (js ''a b'')" "trimmed (js ''a  b'')"
    by (simp_all only: b s)
  have c1: "isControl 0x09" "isNbsp 0xA0"
    by (simp_all add: isControl_def isNbsp_def)
  have v1: "cleanSubject (js ''x'' @ js ''y'') = js ''xy''" "cleanText (js ''x'' @ js ''y'') = js ''xy''"
    "cleanSubject (js ''x'' @ [space] @ js ''y'') = js ''x y''"
    "cleanText (js ''x'' @ [space] @ js ''y'') = js ''x y''"
    by (simp_all add: clean_defs)
  from cleaning_per_field [where c = "0x09" and a = "js ''x''" and b = "js ''y''"] c1
  have d0: "cleanSubject (js ''x'' @ [0x09] @ js ''y'') = cleanSubject (js ''x'' @ js ''y'')"
    "cleanText (js ''x'' @ [0x09] @ js ''y'') = cleanText (js ''x'' @ js ''y'')"
    by blast+
  have d: "cleanSubject (js ''x'' @ [0x09] @ js ''y'') = js ''xy''"
    "cleanText (js ''x'' @ [0x09] @ js ''y'') = js ''xy''"
    by (simp_all only: d0 v1)
  from cleaning_per_field [where c = "0xA0" and a = "js ''x''" and b = "js ''y''"] c1
  have n0: "cleanSubject (js ''x'' @ [0xA0] @ js ''y'') = cleanSubject (js ''x'' @ [space] @ js ''y'')"
    "cleanText (js ''x'' @ [0xA0] @ js ''y'') = cleanText (js ''x'' @ [space] @ js ''y'')"
    by blast+
  have n: "cleanSubject (js ''x'' @ [0xA0] @ js ''y'') = js ''x y''"
    "cleanText (js ''x'' @ [0xA0] @ js ''y'') = js ''x y''"
    by (simp_all only: n0 v1)
  have clean: "filter isControl (js ''a  b'') = []" "filter isZeroWidth (js ''a  b'') = []"
    "filter isNbsp (js ''a  b'') = []" "filter isControl (js ''a b'') = []"
    "filter isZeroWidth (js ''a b'') = []" "filter isNbsp (js ''a b'') = []"
    by (simp_all add: clean_defs)
  from cleaning_per_field [where s = "js ''a  b''"] clean w
  have f: "cleanSubject (js ''a  b'') = js ''a  b''"
    by blast
  from cleaning_per_field [where s = "js ''a b''"] clean w
  have g: "cleanText (js ''a b'') = js ''a b''"
    by blast
  have ws: "\<forall>x\<in>set [0x20, 0x09]. isWhiteSpace x" "\<forall>x\<in>set [0x3000]. isWhiteSpace x"
    by (simp_all add: isWhiteSpace_def)
  have v2: "cleanText (js ''a  b'') = js ''a b''"
    by (simp add: clean_defs)
  from cleaning_per_field [where s = "js ''a  b''" and pre = "[0x20, 0x09]" and post = "[0x3000]"] ws
  have e0: "cleanSubject ([0x20, 0x09] @ js ''a  b'' @ [0x3000]) = cleanSubject (js ''a  b'')"
    "cleanText ([0x20, 0x09] @ js ''a  b'' @ [0x3000]) = cleanText (js ''a  b'')"
    by blast+
  have e: "cleanSubject ([0x20, 0x09] @ js ''a  b'' @ [0x3000]) = js ''a  b''"
    "cleanText ([0x20, 0x09] @ js ''a  b'' @ [0x3000]) = js ''a b''"
    by (simp_all only: e0 f v2)
  have rn: "[0x20, 0x2003] \<noteq> ([] :: jstring)"
    "\<forall>x\<in>set [0x20, 0x2003]. isWhiteSpace x \<and> \<not> isControl x \<and> \<not> isZeroWidth x"
    by (simp_all add: isWhiteSpace_def isControl_def isZeroWidth_def)
  from cleaning_per_field [where run = "[0x20, 0x2003]" and a = "js ''x''" and b = "js ''y''"] rn
  have r0: "cleanText (js ''x'' @ [0x20, 0x2003] @ js ''y'') = cleanText (js ''x'' @ [space] @ js ''y'')"
    by blast
  have r: "cleanText (js ''x'' @ [0x20, 0x2003] @ js ''y'') = js ''x y''"
    by (simp only: r0 v1)
  from b s w c1 d n e f r g show ?thesis by blast
qed

text \<open>
  C7, as the specification states it, fails for the subject: the alternative of line 21
  is between elements, so a first candidate that resolves to an element with empty text
  wins over a later candidate with text. Here \<^verbatim>\<open>h2.hP\<close> is present and empty, the ARIA
  heading reads Hello: the code returns the empty subject, the rule of the specification
  gives Hello.
\<close>

theorem empty_first_candidate_wins:
  "getSubject [el_empty_h2, el_heading_hello] = [] \<and>
   cleanSubject (first_nonempty_text [el_empty_h2, el_heading_hello] [Sel_h2_hP, Sel_heading_perm])
     = js ''Hello''"
  by (simp add: getSubject_def subject_element_def querySelector_def el_empty_h2_def
      el_heading_hello_def first_nonempty_text_def clean_defs)

lemma getSender_Some:
  assumes "querySelector d Sel_span_gD = Some el"
  shows "name (getSender d) =
           Str (cleanName (if truthy (getAttribute el ''name'')
                           then str_of (getAttribute el ''name'') else text_js (Some el)))"
    and "email (getSender d) =
           (if truthy (getAttribute el ''email'') then getAttribute el ''email''
            else if truthy (getAttribute el ''data-hovercard-id'')
                 then getAttribute el ''data-hovercard-id'' else Str [])"
  using assms
  by (cases "getAttribute el ''name''"; cases "getAttribute el ''email''";
      cases "getAttribute el ''data-hovercard-id''";
      simp add: getSender_def js_or_def Let_def)+

lemma getSender_None:
  "querySelector d Sel_span_gD = None \<Longrightarrow> getSender d = \<lparr> name = Str [], email = Str [] \<rparr>"
  by (simp add: getSender_def js_or_def Let_def cleanName_def strip_control_def
      strip_zero_width_def replace_nbsp_def trim_def)

lemma getSender_strings: "\<exists>n e. getSender d = \<lparr> name = Str n, email = Str e \<rparr>"
proof (cases "querySelector d Sel_span_gD")
  case None
  then show ?thesis by (simp add: getSender_None)
next
  case (Some el)
  have "getSender d = \<lparr> name = name (getSender d), email = email (getSender d) \<rparr>" by simp
  moreover have "\<exists>n. name (getSender d) = Str n" using getSender_Some(1)[OF Some] by simp
  moreover have "\<exists>e. email (getSender d) = Str e" using getSender_Some(2)[OF Some]
    by (cases "getAttribute el ''email''"; cases "getAttribute el ''data-hovercard-id''") simp_all
  ultimately show ?thesis by metis
qed

lemma cleanSubject_Nil: "cleanSubject [] = []"
  by (simp add: cleanSubject_def strip_control_def strip_zero_width_def replace_nbsp_def trim_def)

lemma getBody_last:
  assumes "querySelectorAll d Sel_div_a3s = earlier @ [el]"
  shows "getBody d = (case str_method (innerText el) of Inr t \<Rightarrow> cleanText (trim t) | Inl e \<Rightarrow> [])"
  using assms by (simp add: getBody_def array_get_def Let_def)

lemma getBody_none: "querySelectorAll d Sel_div_a3s = [] \<Longrightarrow> getBody d = []"
  by (simp add: getBody_def array_get_def)

text \<open>
  C7, amended: the candidates are tried in list order, whatever the order of the
  elements in the document. For the subject the first candidate that resolves to an
  element wins, also when the text of that element is empty: \<^verbatim>\<open>h2.hP\<close> when it is
  present, the ARIA heading only when \<^verbatim>\<open>h2.hP\<close> is absent. For the sender name the
  \<^verbatim>\<open>name\<close> attribute wins when it is a non-empty string, the text of the element
  otherwise; for the sender e-mail the \<^verbatim>\<open>email\<close> attribute wins when it is non-empty,
  then \<^verbatim>\<open>data-hovercard-id\<close> when it is non-empty, and the empty string otherwise.
\<close>

theorem candidates_in_list_order:
  "(querySelector d Sel_h2_hP = Some el \<longrightarrow> getSubject d = cleanSubject (text_js (Some el))) \<and>
   (querySelector d Sel_h2_hP = None \<longrightarrow>
      getSubject d = cleanSubject (text_js (querySelector d Sel_heading_perm))) \<and>
   (querySelector d Sel_span_gD = Some sp \<longrightarrow>
      name (getSender d) =
        Str (cleanName (if truthy (getAttribute sp ''name'')
                        then str_of (getAttribute sp ''name'') else text_js (Some sp))) \<and>
      email (getSender d) =
        (if truthy (getAttribute sp ''email'') then getAttribute sp ''email''
         else if truthy (getAttribute sp ''data-hovercard-id'')
              then getAttribute sp ''data-hovercard-id'' else Str []))"
proof (intro conjI impI)
  assume "querySelector d Sel_h2_hP = Some el"
  then show "getSubject d = cleanSubject (text_js (Some el))"
    by (simp add: getSubject_def subject_element_def)
next
  assume "querySelector d Sel_h2_hP = None"
  then show "getSubject d = cleanSubject (text_js (querySelector d Sel_heading_perm))"
    by (simp add: getSubject_def subject_element_def)
next
  assume sp: "querySelector d Sel_span_gD = Some sp"
  show "name (getSender d) =
        Str (cleanName (if truthy (getAttribute sp ''name'')
                        then str_of (getAttribute sp ''name'') else text_js (Some sp)))"
    by (rule getSender_Some(1) [OF sp])
  show "email (getSender d) =
        (if truthy (getAttribute sp ''email'') then getAttribute sp ''email''
         else if truthy (getAttribute sp ''data-hovercard-id'')
              then getAttribute sp ''data-hovercard-id'' else Str [])"
    by (rule getSender_Some(2) [OF sp])
qed

lemmas example_defs =
  el_empty_h2_def el_heading_hello_def el_h2_invoice_def el_span_acme_def el_body_old_def
  el_body_pay_def el_paragraph_def

theorem candidates_in_list_order_witness:
  "querySelector [el_heading_hello, el_h2_invoice, el_span_acme] Sel_h2_hP = Some el_h2_invoice \<and>
   querySelector [el_heading_hello, el_h2_invoice, el_span_acme] Sel_span_gD = Some el_span_acme \<and>
   getSubject [el_heading_hello, el_h2_invoice, el_span_acme] = js ''Invoice Due'' \<and>
   name (getSender [el_heading_hello, el_h2_invoice, el_span_acme]) = Str (js ''Acme Billing'') \<and>
   email (getSender [el_heading_hello, el_h2_invoice, el_span_acme]) = Str (js ''billing@acme.com'') \<and>
   querySelector [el_heading_hello, el_span_acme] Sel_h2_hP = None \<and>
   getSubject [el_heading_hello, el_span_acme] = js ''Hello''"
proof -
  let ?d = "[el_heading_hello, el_h2_invoice, el_span_acme]"
  let ?d' = "[el_heading_hello, el_span_acme]"
  have h: "querySelector ?d Sel_h2_hP = Some el_h2_invoice"
    by (simp add: querySelector_def example_defs)
  have g: "querySelector ?d Sel_span_gD = Some el_span_acme"
    by (simp add: querySelector_def example_defs)
  have n: "querySelector ?d' Sel_h2_hP = None"
    by (simp add: querySelector_def example_defs)
  have q: "querySelector ?d' Sel_heading_perm = Some el_heading_hello"
    by (simp add: querySelector_def example_defs)
  have t1: "cleanSubject (text_js (Some el_h2_invoice)) = js ''Invoice Due''"
    by (simp add: example_defs clean_defs)
  have t2: "cleanSubject (text_js (Some el_heading_hello)) = js ''Hello''"
    by (simp add: example_defs clean_defs)
  have t3: "getAttribute el_span_acme ''name'' = Str (js ''Acme Billing'')"
    by (simp add: example_defs getAttribute_def)
  have t4: "getAttribute el_span_acme ''email'' = Str (js ''billing@acme.com'')"
    by (simp add: example_defs getAttribute_def)
  have t5: "cleanName (js ''Acme Billing'') = js ''Acme Billing''"
    by (simp add: clean_defs)
  have t6: "js ''Acme Billing'' \<noteq> []" "js ''billing@acme.com'' \<noteq> []"
    by (simp_all add: js_def)
  show ?thesis
    using candidates_in_list_order [of ?d el_h2_invoice el_span_acme]
      candidates_in_list_order [of ?d' el_h2_invoice el_span_acme]
      h g n q t1 t2 t3 t4 t5 t6
    by simp
qed

text \<open>
  C8: extraction is total. The two calls that can throw, the string methods on the
  sender name (line 47) and on \<^verbatim>\<open>innerText\<close> (line 68), stand inside \<^verbatim>\<open>try\<close> blocks
  whose handlers return strings, so the sender fields are strings for every document,
  never \<^verbatim>\<open>null\<close> or \<^verbatim>\<open>undefined\<close>. A field none of whose candidates resolves is
  the empty string, and the document without any element gives the empty message.
\<close>

theorem extraction_total:
  "(\<exists>n e. sender (extractEmailData d) = \<lparr> name = Str n, email = Str e \<rparr>) \<and>
   (querySelector d Sel_h2_hP = None \<and> querySelector d Sel_heading_perm = None \<longrightarrow>
      subject (extractEmailData d) = []) \<and>
   (querySelector d Sel_span_gD = None \<longrightarrow>
      sender (extractEmailData d) = \<lparr> name = Str [], email = Str [] \<rparr>) \<and>
   (querySelectorAll d Sel_div_a3s = [] \<longrightarrow> body (extractEmailData d) = []) \<and>
   extractEmailData [] = \<lparr> subject = [], sender = \<lparr> name = Str [], email = Str [] \<rparr>, body = [] \<rparr>"
proof (intro conjI impI)
  show "\<exists>n e. sender (extractEmailData d) = \<lparr> name = Str n, email = Str e \<rparr>"
    using getSender_strings [of d] by (simp add: extractEmailData_def)
next
  assume "querySelector d Sel_h2_hP = None \<and> querySelector d Sel_heading_perm = None"
  then show "subject (extractEmailData d) = []"
    by (simp add: extractEmailData_def getSubject_def subject_element_def cleanSubject_Nil)
next
  assume "querySelector d Sel_span_gD = None"
  then show "sender (extractEmailData d) = \<lparr> name = Str [], email = Str [] \<rparr>"
    by (simp add: extractEmailData_def getSender_None)
next
  assume "querySelectorAll d Sel_div_a3s = []"
  then show "body (extractEmailData d) = []"
    by (simp add: extractEmailData_def getBody_none)
next
  have "querySelector [] Sel_span_gD = None" "querySelectorAll [] Sel_div_a3s = []"
    by (simp_all add: querySelector_def querySelectorAll_def)
  then show "extractEmailData [] =
      \<lparr> subject = [], sender = \<lparr> name = Str [], email = Str [] \<rparr>, body = [] \<rparr>"
    by (simp add: extractEmailData_def getSender_None getBody_none getSubject_def
        subject_element_def querySelector_def cleanSubject_Nil)
qed

theorem extraction_total_witness:
  "querySelector [el_paragraph] Sel_h2_hP = None \<and>
   querySelector [el_paragraph] Sel_heading_perm = None \<and>
   querySelector [el_paragraph] Sel_span_gD = None \<and>
   querySelectorAll [el_paragraph] Sel_div_a3s = [] \<and>
   extractEmailData [el_paragraph] =
     \<lparr> subject = [], sender = \<lparr> name = Str [], email = Str [] \<rparr>, body = [] \<rparr>"
proof -
  have h: "querySelector [el_paragraph] Sel_h2_hP = None"
    "querySelector [el_paragraph] Sel_heading_perm = None"
    "querySelector [el_paragraph] Sel_span_gD = None"
    "querySelectorAll [el_paragraph] Sel_div_a3s = []"
    by (simp_all add: querySelector_def querySelectorAll_def example_defs)
  have "extractEmailData [el_paragraph] =
     \<lparr> subject = subject (extractEmailData [el_paragraph]),
       sender = sender (extractEmailData [el_paragraph]),
       body = body (extractEmailData [el_paragraph]) \<rparr>"
    by simp
  with extraction_total [of "[el_paragraph]"] h show ?thesis by simp
qed

text \<open>
  C10: when \<^verbatim>\<open>div.a3s\<close> matches one element or more, the body is computed from the
  \<^verbatim>\<open>innerText\<close> of the last match in document order alone; the earlier matches
  contribute nothing, so the body is that of the document holding the last match only.
\<close>

theorem body_from_last_match:
  "querySelectorAll d Sel_div_a3s = earlier @ [el] \<Longrightarrow>
   getBody d = (case str_method (innerText el) of Inr t \<Rightarrow> cleanText (trim t) | Inl e \<Rightarrow> []) \<and>
   getBody d = getBody [el]"
proof -
  assume a: "querySelectorAll d Sel_div_a3s = earlier @ [el]"
  then have "el \<in> set (querySelectorAll d Sel_div_a3s)" by simp
  then have "matches Sel_div_a3s el" by (simp add: querySelectorAll_def)
  then have "querySelectorAll [el] Sel_div_a3s = [] @ [el]" by (simp add: querySelectorAll_def)
  then have "getBody [el] =
      (case str_method (innerText el) of Inr t \<Rightarrow> cleanText (trim t) | Inl e \<Rightarrow> [])"
    by (rule getBody_last)
  with getBody_last [OF a] show ?thesis by simp
qed

theorem body_from_last_match_witness:
  "querySelectorAll [el_h2_invoice, el_body_old, el_span_acme, el_body_pay] Sel_div_a3s
     = [el_body_old] @ [el_body_pay] \<and>
   getBody [el_h2_invoice, el_body_old, el_span_acme, el_body_pay] = js ''Please pay'' \<and>
   getBody [el_body_pay] = js ''Please pay''"
proof -
  let ?d = "[el_h2_invoice, el_body_old, el_span_acme, el_body_pay]"
  have h: "querySelectorAll ?d Sel_div_a3s = [el_body_old] @ [el_body_pay]"
    by (simp add: querySelectorAll_def example_defs)
  have v: "(case str_method (innerText el_body_pay) of Inr t \<Rightarrow> cleanText (trim t) | Inl e \<Rightarrow> [])
      = js ''Please pay''"
    by (simp add: example_defs clean_defs)
  note t = body_from_last_match [OF h]
  from t have a1: "getBody ?d =
      (case str_method (innerText el_body_pay) of Inr t \<Rightarrow> cleanText (trim t) | Inl e \<Rightarrow> [])"
    by (rule conjunct1)
  from t have a2: "getBody ?d = getBody [el_body_pay]"
    by (rule conjunct2)
  have a: "getBody ?d = js ''Please pay''"
    using a1 v by (rule trans)
  have b: "getBody [el_body_pay] = js ''Please pay''"
    using a2 [symmetric] a by (rule trans)
  from h a b show ?thesis by simp
qed

section \<open>The summary client: probe, retry loop, result\<close>

lemma showStatus_False: "showStatus False w = w"
  by (simp add: showStatus_def split: option.splits)

lemma retry_loop_first_success:
  "fetch 1 = Resolved r \<Longrightarrow> ok r \<Longrightarrow>
   retry_loop fetch c 3 v = (v\<lparr> log := log v @ [Post_summarize c], response := Some r \<rparr>, None)"
  by (simp add: numeral_3_eq_3 Let_def)

lemma retry_loop_second_success:
  "attempt_error (fetch 1) = Some e1 \<Longrightarrow> fetch 2 = Resolved r \<Longrightarrow> ok r \<Longrightarrow>
   log (fst (retry_loop fetch c 3 v)) = log v @ [Post_summarize c, Wait 2000, Post_summarize c] \<and>
   snd (retry_loop fetch c 3 v) = None"
  by (cases "fetch 1") (simp_all add: numeral_3_eq_3 numeral_2_eq_2 Let_def split: if_splits)

lemma retry_loop_third_success:
  "attempt_error (fetch 1) = Some e1 \<Longrightarrow> attempt_error (fetch 2) = Some e2 \<Longrightarrow>
   fetch 3 = Resolved r \<Longrightarrow> ok r \<Longrightarrow>
   log (fst (retry_loop fetch c 3 v)) =
     log v @ [Post_summarize c, Wait 2000, Post_summarize c, Wait 4000, Post_summarize c] \<and>
   snd (retry_loop fetch c 3 v) = None \<and>
   response (fst (retry_loop fetch c 3 v)) = Some r"
  by (cases "fetch 1"; cases "fetch 2")
     (simp_all add: numeral_3_eq_3 numeral_2_eq_2 Let_def split: if_splits)

lemma retry_loop_all_fail:
  "attempt_error (fetch 1) = Some e1 \<Longrightarrow> attempt_error (fetch 2) = Some e2 \<Longrightarrow>
   attempt_error (fetch 3) = Some e3 \<Longrightarrow>
   log (fst (retry_loop fetch c 3 v)) =
     log v @ [Post_summarize c, Wait 2000, Post_summarize c, Wait 4000, Post_summarize c] \<and>
   snd (retry_loop fetch c 3 v) = Some e3"
  by (cases "fetch 1"; cases "fetch 2"; cases "fetch 3")
     (simp_all add: numeral_3_eq_3 numeral_2_eq_2 Let_def split: if_splits)

lemma connectivity_ok:
  "health_fetch net = Resolved hr \<Longrightarrow> ok hr \<Longrightarrow>
   connectivity_test net w = ([Get_health], Inr (), w)"
  by (simp add: connectivity_test_def showStatus_False)

lemma generateSummary_third_attempt:
  assumes "health_fetch net = Resolved hr" "ok hr"
    and "attempt_error (summarize_fetch net 1) = Some e1"
    and "attempt_error (summarize_fetch net 2) = Some e2"
    and "summarize_fetch net 3 = Resolved r" "ok r" "json r = Some res"
  shows "generateSummary net m w =
     \<lparr> events = [Get_health, Post_summarize (emailContent m), Wait 2000,
                  Post_summarize (emailContent m), Wait 4000, Post_summarize (emailContent m)],
       result = Some res, caught = None, page = handle_result res w \<rparr>"
proof -
  let ?v = "\<lparr> response = None, lastError = None, log = [Get_health] \<rparr>"
  let ?l = "retry_loop (summarize_fetch net) (emailContent m) 3 ?v"
  note t = retry_loop_third_success [OF assms(3,4,5,6), of "emailContent m" ?v]
  obtain v x where l: "?l = (v, x)" by (cases ?l)
  with t have "x = None" "response v = Some r"
    "log v = [Get_health, Post_summarize (emailContent m), Wait 2000,
              Post_summarize (emailContent m), Wait 4000, Post_summarize (emailContent m)]"
    by simp_all
  with l assms show ?thesis
    by (simp add: generateSummary_def failed_def showStatus_False connectivity_ok Let_def)
qed

lemma generateSummary_first_attempt:
  assumes "health_fetch net = Resolved hr" "ok hr"
    and "summarize_fetch net 1 = Resolved r" "ok r" "json r = Some res"
  shows "generateSummary net m w =
     \<lparr> events = [Get_health, Post_summarize (emailContent m)],
       result = Some res, caught = None, page = handle_result res w \<rparr>"
  using assms
  by (simp add: generateSummary_def failed_def showStatus_False connectivity_ok Let_def
      retry_loop_first_success)

lemmas widget_ops =
  map_icon_def add_classes_def remove_classes_def has_audio_def showDownloadButton_def
  hideDownloadButton_def updateIconToPlay_def updateIconToPause_def updateIconToSpeaker_def
  updateCircularProgress_def showStatus_def

lemma handle_result_audio:
  "success res \<Longrightarrow> speech_of res = Some sp \<Longrightarrow> audioFile sp \<noteq> [] \<Longrightarrow>
   speechData (handle_result res w) = Some sp \<and>
   (icon w \<noteq> None \<longrightarrow> map_option glyph (icon (handle_result res w)) = Some PlayGlyph)"
  by (auto simp: handle_result_def showStatus_False widget_ops Let_def split: option.splits)

lemma handle_result_ready:
  "success res \<Longrightarrow> speech_of res = Some sp \<Longrightarrow> audioFile sp \<noteq> [] \<Longrightarrow> icon w = Some ic \<Longrightarrow>
   (\<exists>ic'. icon (handle_result res w) = Some ic' \<and> glyph ic' = PlayGlyph \<and>
          classes ic' = classes ic - {Loading}) \<and>
   (download w \<noteq> None \<longrightarrow> download (handle_result res w) = Some DisplayFlex)"
  by (auto simp: handle_result_def showStatus_False widget_ops Let_def split: option.splits)

lemma connectivity_test_Inr:
  "connectivity_test net w = (evs, Inr u, w1) \<Longrightarrow> w1 = w"
  by (auto simp: connectivity_test_def showStatus_False xhr_fallback_def xhr_open_def Let_def
      split: fetch_outcome.splits if_splits sum.splits)

lemma generateSummary_result:
  assumes "result (generateSummary net m w) = Some res"
  shows "page (generateSummary net m w) = handle_result res w"
proof -
  obtain evs x w1 where c: "connectivity_test net w = (evs, x, w1)"
    by (cases "connectivity_test net w")
  show ?thesis
  proof (cases x)
    case (Inl e)
    with c assms show ?thesis
      by (simp add: generateSummary_def failed_def showStatus_False Let_def)
  next
    case (Inr u)
    with c have w1: "w1 = w" by (simp add: connectivity_test_Inr)
    obtain v y where l: "retry_loop (summarize_fetch net) (emailContent m) 3
        \<lparr> response = None, lastError = None, log = evs \<rparr> = (v, y)"
      by (cases "retry_loop (summarize_fetch net) (emailContent m) 3
        \<lparr> response = None, lastError = None, log = evs \<rparr>")
    from assms c Inr l w1 show ?thesis
      by (auto simp: generateSummary_def failed_def showStatus_False Let_def
          split: option.splits if_splits)
  qed
qed

lemma generateSummary_result_any:
  "result (generateSummary net m w) = result (generateSummary net m w')"
proof -
  obtain evs x w1 where c: "connectivity_test net w = (evs, x, w1)"
    by (cases "connectivity_test net w")
  obtain evs' x' w1' where c': "connectivity_test net w' = (evs', x', w1')"
    by (cases "connectivity_test net w'")
  from c c' have e: "evs' = evs \<and> x' = x"
    by (auto simp: connectivity_test_def xhr_fallback_def xhr_open_def Let_def
        split: fetch_outcome.splits sum.splits if_splits)
  show ?thesis
  proof (cases x)
    case (Inl err)
    with c c' e show ?thesis
      by (simp add: generateSummary_def failed_def showStatus_False Let_def)
  next
    case (Inr u)
    with c c' e show ?thesis
      by (auto simp: generateSummary_def failed_def showStatus_False Let_def
          split: prod.splits option.splits)
  qed
qed

lemma xhr_fallback_throws:
  "xhr_fallback net =
     ([], Inl (Thrown ''InvalidAccessError''
                 ''Synchronous requests must not set a timeout.''))"
  by (simp add: xhr_fallback_def xhr_open_def Let_def)

lemma connectivity_test_fails:
  assumes "probe_fails (health_fetch net)"
  shows "\<exists>e w'. connectivity_test net w = ([Get_health], Inl e, w') \<and>
           speechData w' = speechData w \<and>
           (\<forall>ic. icon w = Some ic \<longrightarrow>
              (\<exists>ic'. icon w' = Some ic' \<and> classes ic' \<subseteq> classes ic)) \<and>
           (icon w = None \<longrightarrow> w' = w) \<and>
           (download w = None) = (download w' = None)"
  using assms
  by (cases "health_fetch net")
     (auto simp: connectivity_test_def probe_fails_def xhr_fallback_throws widget_ops Let_def
        split: option.splits)

lemma catch_handler_effect:
  "speechData (catch_handler w) = speechData w \<and>
   (\<forall>ic. icon w = Some ic \<longrightarrow>
      (\<exists>ic'. icon (catch_handler w) = Some ic' \<and>
             classes ic' = classes ic - {Active, Loading, Progress} \<and> glyph ic' = Speaker) \<and>
      (download w \<noteq> None \<longrightarrow> download (catch_handler w) = Some DisplayNone))"
  by (auto simp: catch_handler_def widget_ops Let_def split: option.splits)

lemma net_two_failures_facts:
  "health_fetch net_two_failures = Resolved \<lparr> status = 200, json = None \<rparr>"
  "attempt_error (summarize_fetch net_two_failures 1) = Some (Thrown ''TypeError'' ''Failed to fetch'')"
  "attempt_error (summarize_fetch net_two_failures 2) = Some (Error_Http 503)"
  "summarize_fetch net_two_failures 3 = Resolved response_ok"
  "ok response_ok" "ok \<lparr> status = 200, json = None \<rparr>"
  "json response_ok = Some \<lparr> success = True, speech_of = Some speech_wav \<rparr>"
  by (simp_all add: net_two_failures_def ok_def response_ok_def)

lemma net_ok_facts:
  "health_fetch net_ok = Resolved \<lparr> status = 200, json = None \<rparr>"
  "summarize_fetch net_ok 1 = Resolved response_ok"
  by (simp_all add: net_ok_def)


section \<open>Evaluating the example runs\<close>

lemma doc_invoice: "document host_invoice = [el_h2_invoice, el_span_acme, el_body_pay]"
  by (simp add: host_invoice_def)

lemma open_invoice: "isMessageOpen (document host_invoice)"
  by (simp add: doc_invoice isMessageOpen_def querySelector_def example_defs)

lemma open_hello: "isMessageOpen (document host_hello)"
  by (simp add: host_hello_def isMessageOpen_def querySelector_def example_defs)

lemma extract_invoice: "extractEmailData (document host_invoice) = msg_invoice"
  by (simp add: doc_invoice extractEmailData_def getSubject_def getSender_def getBody_def
      subject_element_def querySelector_def querySelectorAll_def array_get_def getAttribute_def
      js_or_def msg_invoice_def example_defs clean_defs)

lemma readable_invoice: "\<not> unreadable msg_invoice"
  by (simp add: unreadable_def msg_invoice_def js_def)

lemma id_invoice: "getCurrentEmailId host_invoice = js ''Invoice Due-Acme''"
  by (simp add: getCurrentEmailId_def open_invoice)
     (simp add: params_get_def js_or_def host_invoice_def
      subject_element_def querySelector_def example_defs trim_def isWhiteSpace_def js_def)

lemma id_hello: "getCurrentEmailId host_hello = js ''Hello-Acme''"
  by (simp add: getCurrentEmailId_def open_hello)
     (simp add: params_get_def js_or_def host_hello_def
      subject_element_def querySelector_def example_defs trim_def isWhiteSpace_def js_def)

lemma ids_differ: "js ''Hello-Acme'' \<noteq> js ''Invoice Due-Acme''" "js ''Hello-Acme'' \<noteq> js ''no-email''"
  by (simp_all add: js_def)

lemma reset_widget_with:
  "resetWidgetState (widget_with cs g d sp ts) = widget_with (cs - {Active, Loading, Progress}) Speaker DisplayNone sp ts"
  by (simp add: resetWidgetState_def widget_with_def widget_ops Let_def)

lemma created_widget_with: "created_widget = widget_with {} Microphone DisplayDefault None []"
  by (simp add: created_widget_def widget_with_def)

lemma init_invoice:
  "initializeWidget host_invoice =
     \<lparr> ui = widget_with {} Speaker DisplayNone None [(1000, AutoReadIfOpen)],
       currentEmailId = js ''Invoice Due-Acme'', in_flight = [] \<rparr>"
  by (simp add: initializeWidget_def open_invoice id_invoice created_widget_with
      reset_widget_with add_timer_def Let_def) (simp add: widget_with_def)

lemma autoRead_invoice:
  "autoReadCurrentEmail (document host_invoice) (widget_with cs g d None ts) =
     (widget_with (cs \<union> {Active, Loading}) g d None ts, CallGenerateSummary msg_invoice)"
  by (simp add: autoReadCurrentEmail_def open_invoice extract_invoice readable_invoice Let_def)
     (auto simp add: widget_with_def widget_ops)

lemma handle_result_widget_with:
  "handle_result \<lparr> success = True, speech_of = Some speech_wav \<rparr> (widget_with cs g d sp ts) =
     widget_with (cs - {Loading}) PlayGlyph DisplayFlex (Some speech_wav) ts"
  by (simp add: handle_result_def showStatus_False widget_ops Let_def widget_with_def
      speech_wav_def js_def)

lemma clicked_state:
  "trace_clicked =
     \<lparr> ui = widget_with {Active, Loading} Speaker DisplayNone None [(1000, AutoReadIfOpen)],
       currentEmailId = js ''Invoice Due-Acme'', in_flight = [msg_invoice] \<rparr>"
proof -
  have "handleIconClick (document host_invoice)
          (widget_with {} Speaker DisplayNone None [(1000, AutoReadIfOpen)]) =
        (widget_with {Active, Loading} Speaker DisplayNone None [(1000, AutoReadIfOpen)],
         Pipeline (CallGenerateSummary msg_invoice))"
  proof -
    have "map_icon (add_classes {Loading})
            (map_icon (add_classes {Active})
              (widget_with {} Speaker DisplayNone None [(1000, AutoReadIfOpen)]))
              \<lparr> speechData := None \<rparr>
          = widget_with {Active, Loading} Speaker DisplayNone None [(1000, AutoReadIfOpen)]"
      by (auto simp add: widget_with_def widget_ops)
    moreover have "icon (widget_with {} Speaker DisplayNone None [(1000, AutoReadIfOpen)]) =
        Some \<lparr> classes = {}, glyph = Speaker, background = BgDefault, gradient = None \<rparr>"
      by (simp add: widget_with_def)
    ultimately show ?thesis
      by (simp add: handleIconClick_def Let_def autoRead_invoice)
  qed
  then show ?thesis
    by (simp add: trace_clicked_def init_invoice step_def start_pipeline_def)
qed

lemma timer_state:
  "trace_timer =
     \<lparr> ui = widget_with {Active, Loading} Speaker DisplayNone None [],
       currentEmailId = js ''Invoice Due-Acme'', in_flight = [msg_invoice, msg_invoice] \<rparr>"
proof -
  have "(widget_with {Active, Loading} Speaker DisplayNone None [(1000, AutoReadIfOpen)])
          \<lparr> timers := [] \<rparr> = widget_with {Active, Loading} Speaker DisplayNone None []"
    by (simp add: widget_with_def)
  moreover have "timers (widget_with {Active, Loading} Speaker DisplayNone None [(1000, AutoReadIfOpen)])
      = [(1000, AutoReadIfOpen)]"
    by (simp add: widget_with_def)
  ultimately show ?thesis
    by (simp add: trace_timer_def clicked_state step_def run_callback_def open_invoice
        autoRead_invoice start_pipeline_def)
qed

lemma requesting_state:
  "trace_requesting =
     \<lparr> ui = widget_with {Active, Loading} Speaker DisplayNone None [],
       currentEmailId = js ''Invoice Due-Acme'', in_flight = [msg_invoice] \<rparr>"
proof -
  have "(widget_with {} Speaker DisplayNone None [(1000, AutoReadIfOpen)])
          \<lparr> timers := [] \<rparr> = widget_with {} Speaker DisplayNone None []"
    by (simp add: widget_with_def)
  moreover have "timers (widget_with {} Speaker DisplayNone None [(1000, AutoReadIfOpen)])
      = [(1000, AutoReadIfOpen)]"
    by (simp add: widget_with_def)
  ultimately show ?thesis
    by (simp add: trace_requesting_def init_invoice step_def run_callback_def open_invoice
        autoRead_invoice start_pipeline_def)
qed

lemma navigated_state:
  "trace_navigated =
     \<lparr> ui = widget_with {} Speaker DisplayNone None [(1000, AutoReadIfOpen)],
       currentEmailId = js ''Hello-Acme'', in_flight = [msg_invoice] \<rparr>"
proof -
  have "(widget_with {} Speaker DisplayNone None [])\<lparr> timers := [(1000, AutoReadIfOpen)] \<rparr>
      = widget_with {} Speaker DisplayNone None [(1000, AutoReadIfOpen)]"
    "timers (widget_with {} Speaker DisplayNone None []) = []"
    by (simp_all add: widget_with_def)
  then show ?thesis
    by (simp add: trace_navigated_def requesting_state step_def checkForEmailChange_def id_hello
        ids_differ reset_widget_with add_timer_def Let_def)
qed

lemma stale_response_state:
  "trace_stale_response =
     \<lparr> ui = widget_with {} PlayGlyph DisplayFlex (Some speech_wav) [(1000, AutoReadIfOpen)],
       currentEmailId = js ''Hello-Acme'', in_flight = [] \<rparr>"
proof -
  have "generateSummary net_ok msg_invoice (widget_with {} Speaker DisplayNone None [(1000, AutoReadIfOpen)])
      = \<lparr> events = [Get_health, Post_summarize (emailContent msg_invoice)],
          result = Some \<lparr> success = True, speech_of = Some speech_wav \<rparr>, caught = None,
          page = handle_result \<lparr> success = True, speech_of = Some speech_wav \<rparr>
                   (widget_with {} Speaker DisplayNone None [(1000, AutoReadIfOpen)]) \<rparr>"
    by (rule generateSummary_first_attempt) (rule net_ok_facts net_two_failures_facts)+
  then show ?thesis
    by (simp add: trace_stale_response_def navigated_state step_def handle_result_widget_with)
qed


section \<open>The claims about the summary client\<close>

text \<open>
  C1: the network answers the health probe, rejects the first summarize attempt, answers
  the second with 503 and the third with 200 and an audio file. There are exactly three
  attempts and the loop stops at the first success, but the waits are 2000 ms before the
  second attempt and 4000 ms before the third: \<^verbatim>\<open>retries\<close> is decremented (line 768)
  before the delay \<^verbatim>\<open>Math.pow(2, 3 - retries) * 1000\<close> is computed (line 772). The
  claim, and the comment of line 772 (1s, 2s, 4s), say 1 s and then 2 s.
\<close>

theorem backoff_waits_two_then_four_seconds:
  "events (generateSummary net_two_failures m w) =
     [Get_health, Post_summarize (emailContent m), Wait 2000,
      Post_summarize (emailContent m), Wait 4000, Post_summarize (emailContent m)] \<and>
   caught (generateSummary net_two_failures m w) = None \<and>
   speechData (page (generateSummary net_two_failures m w)) = Some speech_wav"
proof -
  have "generateSummary net_two_failures m w =
     \<lparr> events = [Get_health, Post_summarize (emailContent m), Wait 2000,
                  Post_summarize (emailContent m), Wait 4000, Post_summarize (emailContent m)],
       result = Some \<lparr> success = True, speech_of = Some speech_wav \<rparr>, caught = None,
       page = handle_result \<lparr> success = True, speech_of = Some speech_wav \<rparr> w \<rparr>"
    by (rule generateSummary_third_attempt) (rule net_two_failures_facts)+
  moreover have "speechData (handle_result \<lparr> success = True, speech_of = Some speech_wav \<rparr> w)
      = Some speech_wav"
    using handle_result_audio [of "\<lparr> success = True, speech_of = Some speech_wav \<rparr>" speech_wav w]
    by (simp add: speech_wav_def js_def)
  ultimately show ?thesis by simp
qed

text \<open>
  C6: when the health probe fails (\<^verbatim>\<open>fetch\<close> rejects, or answers with a status that
  is not 2xx), the only request of the call is that probe: no summarize call is sent, an
  error reaches the handler of line 827, the cached speech result is left as it was, and
  the icon loses \<^verbatim>\<open>active\<close> and \<^verbatim>\<open>loading\<close>, shows the speaker glyph and hides
  the download button. The synchronous fallback of lines 710-727 sends nothing: its
  \<^verbatim>\<open>open\<close> throws, the request being synchronous with a timeout set (\<open>xhr_open\<close>).
\<close>

theorem probe_failure_fails_fast:
  assumes "probe_fails (health_fetch net)"
  shows "events (generateSummary net m w) = [Get_health] \<and>
         caught (generateSummary net m w) \<noteq> None \<and>
         speechData (page (generateSummary net m w)) = speechData w \<and>
         (\<forall>ic. icon w = Some ic \<longrightarrow>
            (\<exists>ic'. icon (page (generateSummary net m w)) = Some ic' \<and>
                   Active \<notin> classes ic' \<and> Loading \<notin> classes ic' \<and> glyph ic' = Speaker) \<and>
            (download w \<noteq> None \<longrightarrow>
               download (page (generateSummary net m w)) = Some DisplayNone))"
proof -
  from connectivity_test_fails [OF assms, of w]
  obtain e w' where c: "connectivity_test net w = ([Get_health], Inl e, w')"
    and sp: "speechData w' = speechData w"
    and ic: "\<forall>ic. icon w = Some ic \<longrightarrow> (\<exists>ic'. icon w' = Some ic' \<and> classes ic' \<subseteq> classes ic)"
    and dl: "(download w = None) = (download w' = None)"
    by (elim exE conjE)
  have g: "generateSummary net m w =
      \<lparr> events = [Get_health], result = None, caught = Some e, page = catch_handler w' \<rparr>"
    using c by (simp add: generateSummary_def failed_def showStatus_False Let_def)
  note h = catch_handler_effect [of w']
  show ?thesis
  proof (intro conjI allI impI)
    show "events (generateSummary net m w) = [Get_health]" by (simp add: g)
    show "caught (generateSummary net m w) \<noteq> None" by (simp add: g)
    show "speechData (page (generateSummary net m w)) = speechData w" using h sp by (simp add: g)
  next
    fix ic0 assume a: "icon w = Some ic0"
    with ic obtain ic1 where i1: "icon w' = Some ic1" by blast
    with h obtain ic' where i2: "icon (catch_handler w') = Some ic'"
      "classes ic' = classes ic1 - {Active, Loading, Progress}" "glyph ic' = Speaker"
      by blast
    then show "\<exists>ic'. icon (page (generateSummary net m w)) = Some ic' \<and>
                   Active \<notin> classes ic' \<and> Loading \<notin> classes ic' \<and> glyph ic' = Speaker"
      by (simp add: g)
    assume "download w \<noteq> None"
    with dl have "download w' \<noteq> None" by simp
    with h i1 show "download (page (generateSummary net m w)) = Some DisplayNone"
      by (simp add: g)
  qed
qed

theorem probe_failure_fails_fast_witness:
  "probe_fails (health_fetch net_health_503) \<and>
   events (generateSummary net_health_503 msg_invoice
             (widget_with {Active, Loading} Speaker DisplayNone None [])) = [Get_health] \<and>
   caught (generateSummary net_health_503 msg_invoice
             (widget_with {Active, Loading} Speaker DisplayNone None [])) \<noteq> None"
proof -
  have p: "probe_fails (health_fetch net_health_503)"
    by (simp add: probe_fails_def net_health_503_def ok_def)
  from probe_failure_fails_fast [OF p, of msg_invoice
      "widget_with {Active, Loading} Speaker DisplayNone None []"] p
  show ?thesis by blast
qed


section \<open>The claims about the widget state machine\<close>

text \<open>
  C2, as the specification states it, fails: \<^verbatim>\<open>generateSummary\<close> keeps no identity
  and compares none. The request starts on the message Invoice Due; the user opens the
  message Hello and the interval check resets the widget; the response to the first
  request then arrives, caches its audio file and draws the play glyph.
\<close>

theorem stale_response_alters_widget:
  "currentEmailId trace_requesting = js ''Invoice Due-Acme'' \<and>
   in_flight trace_requesting = [msg_invoice] \<and>
   currentEmailId trace_navigated = js ''Hello-Acme'' \<and>
   js ''Hello-Acme'' \<noteq> js ''Invoice Due-Acme'' \<and>
   in_flight trace_navigated = [msg_invoice] \<and>
   ui trace_navigated = widget_with {} Speaker DisplayNone None [(1000, AutoReadIfOpen)] \<and>
   ui (step host_hello (Completes 0 net_ok) trace_navigated) =
     widget_with {} PlayGlyph DisplayFlex (Some speech_wav) [(1000, AutoReadIfOpen)] \<and>
   ui (step host_hello (Completes 0 net_ok) trace_navigated) \<noteq> ui trace_navigated \<and>
   speechData (ui trace_navigated) = None \<and>
   speechData (ui (step host_hello (Completes 0 net_ok) trace_navigated)) = Some speech_wav"
proof -
  have s: "step host_hello (Completes 0 net_ok) trace_navigated =
     \<lparr> ui = widget_with {} PlayGlyph DisplayFlex (Some speech_wav) [(1000, AutoReadIfOpen)],
       currentEmailId = js ''Hello-Acme'', in_flight = [] \<rparr>"
    using stale_response_state by (simp only: trace_stale_response_def)
  show ?thesis
    unfolding s
    by (simp add: requesting_state navigated_state ids_differ) (simp add: widget_with_def)
qed

text \<open>
  C2, amended: a response is processed without regard to the message identity. The
  completion of a request neither reads nor writes \<^verbatim>\<open>currentEmailId\<close> and does not
  read the page; the response parsed at line 787 is the same whatever the widget shows;
  and a successful response that carries an audio file is cached as the speech result and
  shown as ready to play, whether or not the identity has changed since the request
  started: the icon, when present, loses \<^verbatim>\<open>loading\<close> and draws the play glyph, and the
  download button, when present, is shown.
\<close>

theorem response_processed_whatever_the_identity:
  "step h (Completes i net) (s\<lparr> currentEmailId := cid \<rparr>) =
     (step h' (Completes i net) s)\<lparr> currentEmailId := cid \<rparr> \<and>
   result (generateSummary net m w) = result (generateSummary net m w') \<and>
   (i < length (in_flight s) \<and>
    result (generateSummary net (in_flight s ! i) (ui s)) = Some res \<and>
    success res \<and> speech_of res = Some sp \<and> audioFile sp \<noteq> [] \<longrightarrow>
      speechData (ui (step h (Completes i net) s)) = Some sp \<and>
      (icon (ui s) \<noteq> None \<longrightarrow>
         map_option glyph (icon (ui (step h (Completes i net) s))) = Some PlayGlyph) \<and>
      (\<forall>ic. icon (ui s) = Some ic \<longrightarrow>
         (\<exists>ic'. icon (ui (step h (Completes i net) s)) = Some ic' \<and> glyph ic' = PlayGlyph \<and>
                classes ic' = classes ic - {Loading}) \<and>
         (download (ui s) \<noteq> None \<longrightarrow>
            download (ui (step h (Completes i net) s)) = Some DisplayFlex)))"
proof (intro conjI impI allI)
  show "step h (Completes i net) (s\<lparr> currentEmailId := cid \<rparr>) =
     (step h' (Completes i net) s)\<lparr> currentEmailId := cid \<rparr>"
    by (simp add: step_def)
next
  show "result (generateSummary net m w) = result (generateSummary net m w')"
    by (rule generateSummary_result_any)
next
  assume a: "i < length (in_flight s) \<and>
    result (generateSummary net (in_flight s ! i) (ui s)) = Some res \<and>
    success res \<and> speech_of res = Some sp \<and> audioFile sp \<noteq> []"
  then have g: "page (generateSummary net (in_flight s ! i) (ui s)) = handle_result res (ui s)"
    by (simp add: generateSummary_result)
  from a have u: "ui (step h (Completes i net) s) = handle_result res (ui s)"
    by (simp add: step_def g)
  from a handle_result_audio [of res sp "ui s"]
  show "speechData (ui (step h (Completes i net) s)) = Some sp"
    by (simp add: u)
  {
    assume "icon (ui s) \<noteq> None"
    with a handle_result_audio [of res sp "ui s"]
    show "map_option glyph (icon (ui (step h (Completes i net) s))) = Some PlayGlyph"
      by (simp add: u)
  }
  fix ic
  assume ic: "icon (ui s) = Some ic"
  from a have a1: "success res" and a2: "speech_of res = Some sp" and a3: "audioFile sp \<noteq> []"
    by blast+
  have r: "(\<exists>ic'. icon (handle_result res (ui s)) = Some ic' \<and> glyph ic' = PlayGlyph \<and>
          classes ic' = classes ic - {Loading}) \<and>
      (download (ui s) \<noteq> None \<longrightarrow> download (handle_result res (ui s)) = Some DisplayFlex)"
    using a1 a2 a3 ic by (rule handle_result_ready)
  from r show "\<exists>ic'. icon (ui (step h (Completes i net) s)) = Some ic' \<and> glyph ic' = PlayGlyph \<and>
      classes ic' = classes ic - {Loading}"
    by (simp add: u)
  assume "download (ui s) \<noteq> None"
  with r show "download (ui (step h (Completes i net) s)) = Some DisplayFlex"
    by (simp add: u)
qed

theorem response_processed_whatever_the_identity_witness:
  "0 < length (in_flight trace_navigated) \<and>
   result (generateSummary net_ok (in_flight trace_navigated ! 0) (ui trace_navigated)) =
     Some \<lparr> success = True, speech_of = Some speech_wav \<rparr> \<and>
   audioFile speech_wav \<noteq> [] \<and>
   icon (ui trace_navigated) =
     Some \<lparr> classes = {}, glyph = Speaker, background = BgDefault, gradient = None \<rparr> \<and>
   download (ui trace_navigated) = Some DisplayNone \<and>
   speechData (ui (step host_hello (Completes 0 net_ok) trace_navigated)) = Some speech_wav \<and>
   map_option glyph (icon (ui (step host_hello (Completes 0 net_ok) trace_navigated))) = Some PlayGlyph \<and>
   download (ui (step host_hello (Completes 0 net_ok) trace_navigated)) = Some DisplayFlex"
proof -
  have a: "0 < length (in_flight trace_navigated)" "icon (ui trace_navigated) \<noteq> None"
    "icon (ui trace_navigated) =
       Some \<lparr> classes = {}, glyph = Speaker, background = BgDefault, gradient = None \<rparr>"
    "download (ui trace_navigated) = Some DisplayNone"
    by (simp_all add: navigated_state widget_with_def)
  have "generateSummary net_ok (in_flight trace_navigated ! 0) (ui trace_navigated) =
      \<lparr> events = [Get_health, Post_summarize (emailContent (in_flight trace_navigated ! 0))],
        result = Some \<lparr> success = True, speech_of = Some speech_wav \<rparr>, caught = None,
        page = handle_result \<lparr> success = True, speech_of = Some speech_wav \<rparr> (ui trace_navigated) \<rparr>"
    by (rule generateSummary_first_attempt) (rule net_ok_facts net_two_failures_facts)+
  then have r: "result (generateSummary net_ok (in_flight trace_navigated ! 0) (ui trace_navigated)) =
     Some \<lparr> success = True, speech_of = Some speech_wav \<rparr>"
    by simp
  have b: "audioFile speech_wav \<noteq> []"
    by (simp add: speech_wav_def js_def)
  note t = response_processed_whatever_the_identity
    [where h = host_hello and i = 0 and net = net_ok and s = trace_navigated
       and res = "\<lparr> success = True, speech_of = Some speech_wav \<rparr>" and sp = speech_wav]
  from t a r b show ?thesis by simp
qed

lemma handlePlayPause_timers: "timers (handlePlayPause w) = timers w"
  by (simp add: handlePlayPause_def widget_ops split: option.splits)

lemma click_while_loading:
  assumes "icon (ui s) = Some ic" "Loading \<in> classes ic"
  shows "in_flight (step h Click s) = in_flight s \<and>
         timers (ui (step h Click s)) = timers (ui s) \<and>
         currentEmailId (step h Click s) = currentEmailId s"
  using assms
  by (simp add: step_def handleIconClick_def handlePlayPause_timers)

text \<open>
  C3: the page loads with a message open, the user clicks the icon within the first
  second, and the timeout of lines 156-161 then runs. The click has started a request and
  the icon carries \<^verbatim>\<open>active\<close> and \<^verbatim>\<open>loading\<close>; the timeout calls
  \<^verbatim>\<open>autoReadCurrentEmail\<close>, whose guard of line 622 tests the cached audio only, and a
  second request starts while the first is in flight. A click in that state starts nothing
  (lemma \<open>click_while_loading\<close>); the path of the timeout has no such check.
\<close>

theorem second_episode_while_requesting:
  "in_flight trace_clicked = [msg_invoice] \<and>
   map_option classes (icon (ui trace_clicked)) = Some {Active, Loading} \<and>
   timers (ui trace_clicked) = [(1000, AutoReadIfOpen)] \<and>
   in_flight (step host_invoice (TimerFires 0) trace_clicked) = [msg_invoice, msg_invoice] \<and>
   map_option classes (icon (ui (step host_invoice (TimerFires 0) trace_clicked)))
     = Some {Active, Loading}"
proof -
  have "step host_invoice (TimerFires 0) trace_clicked =
     \<lparr> ui = widget_with {Active, Loading} Speaker DisplayNone None [],
       currentEmailId = js ''Invoice Due-Acme'', in_flight = [msg_invoice, msg_invoice] \<rparr>"
    using timer_state by (simp only: trace_timer_def)
  then show ?thesis
    by (simp add: clicked_state widget_with_def)
qed

text \<open>
  C4, as the specification states it, fails in its converse: the all-empty test is not
  the only gate. A readable message is not summarized when an audio file is cached
  (line 622), nor when neither \<^verbatim>\<open>h2.hP\<close> nor \<^verbatim>\<open>div.a3s\<close> is on the page (line 616).
\<close>

theorem cached_audio_blocks_readable_message:
  "\<not> unreadable (extractEmailData (document host_invoice)) \<and>
   isMessageOpen (document host_invoice) \<and>
   snd (autoReadCurrentEmail (document host_invoice)
          (widget_with {} PlayGlyph DisplayFlex (Some speech_wav) [])) = AudioAvailable \<and>
   \<not> unreadable (extractEmailData [el_span_acme]) \<and>
   snd (autoReadCurrentEmail [el_span_acme] (widget_with {} Speaker DisplayNone None []))
     = NoEmailOpen"
proof -
  have "has_audio (widget_with {} PlayGlyph DisplayFlex (Some speech_wav) [])"
    by (simp add: has_audio_def widget_with_def speech_wav_def js_def)
  moreover have "\<not> isMessageOpen [el_span_acme]"
    by (simp add: isMessageOpen_def querySelector_def example_defs)
  moreover have "\<not> unreadable (extractEmailData [el_span_acme])"
    by (simp add: unreadable_def extractEmailData_def getSender_def querySelector_def
        getAttribute_def js_or_def example_defs clean_defs)
  ultimately show ?thesis
    by (simp add: autoReadCurrentEmail_def open_invoice extract_invoice readable_invoice)
qed

text \<open>
  C4, amended: when subject, sender name and body are all empty, \<^verbatim>\<open>generateSummary\<close>
  is not called; if the extraction was reached, the outcome is ExtractionEmpty and the
  icon carries neither \<^verbatim>\<open>active\<close> nor \<^verbatim>\<open>loading\<close>. \<^verbatim>\<open>generateSummary\<close> is called,
  with the extracted message, exactly when a message is open, no audio file is cached and
  the three fields are not all empty.
\<close>

theorem summarize_gates:
  "(unreadable (extractEmailData d) \<longrightarrow>
      (\<forall>m. snd (autoReadCurrentEmail d w) \<noteq> CallGenerateSummary m)) \<and>
   (isMessageOpen d \<and> \<not> has_audio w \<and> unreadable (extractEmailData d) \<longrightarrow>
      snd (autoReadCurrentEmail d w) = ExtractionEmpty \<and>
      (\<forall>ic. icon (fst (autoReadCurrentEmail d w)) = Some ic \<longrightarrow>
         Active \<notin> classes ic \<and> Loading \<notin> classes ic)) \<and>
   (snd (autoReadCurrentEmail d w) = CallGenerateSummary m \<longleftrightarrow>
      isMessageOpen d \<and> \<not> has_audio w \<and> \<not> unreadable (extractEmailData d) \<and>
      m = extractEmailData d)"
  by (auto simp: autoReadCurrentEmail_def Let_def map_icon_def remove_classes_def add_classes_def
      split: option.splits)

theorem summarize_gates_witness:
  "unreadable (extractEmailData [el_empty_h2]) \<and> isMessageOpen [el_empty_h2] \<and>
   \<not> has_audio (widget_with {} Speaker DisplayNone None []) \<and>
   snd (autoReadCurrentEmail [el_empty_h2] (widget_with {} Speaker DisplayNone None []))
     = ExtractionEmpty \<and>
   snd (autoReadCurrentEmail (document host_invoice) (widget_with {} Speaker DisplayNone None []))
     = CallGenerateSummary msg_invoice"
proof -
  have u: "unreadable (extractEmailData [el_empty_h2])"
    by (simp add: unreadable_def extractEmailData_def getSubject_def getSender_def getBody_def
        subject_element_def querySelector_def querySelectorAll_def array_get_def
        js_or_def Let_def example_defs clean_defs)
  have o: "isMessageOpen [el_empty_h2]"
    by (simp add: isMessageOpen_def querySelector_def example_defs)
  have a: "\<not> has_audio (widget_with {} Speaker DisplayNone None [])"
    by (simp add: has_audio_def widget_with_def)
  note t1 = summarize_gates [of "[el_empty_h2]" "widget_with {} Speaker DisplayNone None []" msg_invoice]
  note t2 = summarize_gates [of "document host_invoice" "widget_with {} Speaker DisplayNone None []"
      msg_invoice]
  from t1 u o a have e: "snd (autoReadCurrentEmail [el_empty_h2]
      (widget_with {} Speaker DisplayNone None [])) = ExtractionEmpty"
    by blast
  from t2 a open_invoice extract_invoice readable_invoice
  have c: "snd (autoReadCurrentEmail (document host_invoice)
      (widget_with {} Speaker DisplayNone None [])) = CallGenerateSummary msg_invoice"
    by simp
  from u o a e c show ?thesis by simp
qed

lemma checkForEmailChange_id: "currentEmailId (checkForEmailChange h s) = getCurrentEmailId h"
  by (simp add: checkForEmailChange_def Let_def add_timer_def)

text \<open>
  C9: a second run of the change check, on a page whose identity equals the one the first
  run computed, changes nothing: no reset, no new timeout. This holds for the check
  called by the interval timer and for the one scheduled by the mutation observer, which
  are the same function.
\<close>

theorem change_check_idempotent:
  assumes "getCurrentEmailId h' = getCurrentEmailId h"
  shows "checkForEmailChange h' (checkForEmailChange h s) = checkForEmailChange h s \<and>
         step h' IntervalTick (checkForEmailChange h s) = checkForEmailChange h s \<and>
         run_callback h' CheckForEmailChange (checkForEmailChange h s) = checkForEmailChange h s"
proof -
  have "getCurrentEmailId h' = currentEmailId (checkForEmailChange h s)"
    using assms by (simp add: checkForEmailChange_id)
  then have "checkForEmailChange h' (checkForEmailChange h s) = checkForEmailChange h s"
    by (simp add: checkForEmailChange_def [of h' "checkForEmailChange h s"] Let_def)
  then show ?thesis by (simp add: step_def run_callback_def)
qed

theorem change_check_idempotent_witness:
  "getCurrentEmailId host_hello = getCurrentEmailId host_hello \<and>
   checkForEmailChange host_hello trace_requesting = trace_navigated \<and>
   trace_navigated \<noteq> trace_requesting \<and>
   checkForEmailChange host_hello trace_navigated = trace_navigated"
proof -
  have n: "checkForEmailChange host_hello trace_requesting = trace_navigated"
    by (simp add: trace_navigated_def step_def)
  have d: "trace_navigated \<noteq> trace_requesting"
    by (simp add: navigated_state requesting_state ids_differ)
  from change_check_idempotent [of host_hello host_hello trace_requesting] n d
  show ?thesis by simp
qed

end
